theory Spec2Isabelle
  imports Main "HOL-Library.AList" "HOL-Library.Sublist"
begin

section \<open>Shared data\<close>

text \<open>
  Tab ids are the integers Chrome hands out; times are \<^verbatim>\<open>Date.now()\<close> values,
  milliseconds as integers. Every handler of the source reads the clock and talks to
  Chrome; the model passes what they answer as arguments: \<open>now\<close> is the clock value of the
  handler's run (one value per run), and a \<open>string option\<close> is the outcome of one
  \<^verbatim>\<open>chrome.tabs.sendMessage\<close> call, \<open>None\<close> when the promise resolves and
  \<open>Some msg\<close> when it rejects with an error carrying \<open>msg\<close>. Calls of
  \<^verbatim>\<open>chrome.storage.local\<close> are taken to succeed. A handler runs from its first to its
  last statement without another handler in between.
\<close>

type_synonym tab_id = int
type_synonym time = int

text \<open>The search form's parameters (\<^verbatim>\<open>scrapingParams\<close>).\<close>

record scraping_params =
  jobTitle_param :: string
  location_param :: string
  maxPages :: nat

text \<open>
  What a result record holds under one of its keys: nothing when the object has no such
  key, else \<^verbatim>\<open>undefined\<close>, \<^verbatim>\<open>null\<close> or a string. Strings are lists of
  one-byte characters, so a character above U+00FF has no counterpart here.
\<close>

datatype field_value = Absent | JsUndefined | JsNull | JsString string

text \<open>
  A result record with the thirteen keys the extractor writes, each of which it fills with
  a string. \<open>compressed\<close> is the key \<^verbatim>\<open>_compressed\<close>, which is either absent or
  \<^verbatim>\<open>true\<close>.
\<close>

record job_record =
  jobId :: field_value
  jobTitle :: field_value
  companyName :: field_value
  location :: field_value
  jobUrl :: field_value
  jobDescription :: field_value
  seniorityLevel :: field_value
  employmentType :: field_value
  jobFunction :: field_value
  industries :: field_value
  applicants :: field_value
  datePosted :: field_value
  listingDate :: field_value
  compressed :: bool

section \<open>The job orchestrator (background/background.js)\<close>

datatype job_status = Running | Completed | Cancelled | Timeout

text \<open>
  A job id is the string \<^verbatim>\<open>job_${Date.now()}_${tabId}\<close>: two integers in decimal
  around an underscore, so the string determines both and the pair stands for it.
\<close>

datatype job_id = JobId time tab_id

record error_entry =
  timestamp_err :: time
  message :: string

record scrape_job =
  id_job :: job_id
  tabId :: tab_id
  params :: scraping_params
  startTime :: time
  status :: job_status
  progress :: nat
  extractedJobs :: "job_record list"
  errors :: "error_entry list"
  lastUpdate :: "time option"
  endTime :: "time option"

record queued_request =
  tabId_q :: tab_id
  scrapingParams :: scraping_params
  timestamp_q :: time

record history_entry =
  id_hist :: job_id
  params_hist :: scraping_params
  startTime_hist :: time
  status_hist :: job_status
  endTime_hist :: "time option"
  extractedCount :: "nat option"

record result_data =
  id_res :: job_id
  params_res :: scraping_params
  startTime_res :: time
  endTime_res :: "time option"
  duration_res :: "int option"
  status_res :: job_status
  jobCount_res :: nat
  jobs_res :: "job_record list"
  errors_res :: "error_entry list"

record index_entry =
  id_idx :: job_id
  timestamp :: time
  params_idx :: scraping_params
  jobCount :: nat
  duration :: "int option"
  status_idx :: job_status

text \<open>
  The manager's fields and the part of \<^verbatim>\<open>chrome.storage.local\<close> it writes.
  \<^verbatim>\<open>activeScrapeJobs\<close> is a JavaScript \<^verbatim>\<open>Map\<close>: an association list in
  insertion order, \<^verbatim>\<open>set\<close> is \<^const>\<open>AList.update\<close> (a present key keeps its
  place), \<^verbatim>\<open>delete\<close> is \<^const>\<open>AList.delete\<close>, \<^verbatim>\<open>size\<close> is the length.
  \<open>scrapingResults\<close> holds the value stored under each key
  \<^verbatim>\<open>scraping_result_${id}\<close>.
\<close>

record manager =
  activeScrapeJobs :: "(tab_id \<times> scrape_job) list"
  scrapingQueue :: "queued_request list"
  maxConcurrentScrapes :: nat
  scrapingHistory :: "history_entry list"
  scrapingIndex :: "index_entry list"
  scrapingResults :: "job_id \<rightharpoonup> result_data"

definition has :: "tab_id \<Rightarrow> (tab_id \<times> scrape_job) list \<Rightarrow> bool" where
  "has t al = (map_of al t \<noteq> None)"

text \<open>The constructor, with \<open>c\<close> the ceiling the settings give (2 when they give none).\<close>

definition newManager :: "nat \<Rightarrow> manager" where
  "newManager c =
     \<lparr>activeScrapeJobs = [], scrapingQueue = [], maxConcurrentScrapes = c,
      scrapingHistory = [], scrapingIndex = [], scrapingResults = Map.empty\<rparr>"

subsection \<open>Scraping history\<close>

definition addToScrapingHistory :: "scrape_job \<Rightarrow> manager \<Rightarrow> manager" where
  "addToScrapingHistory job m =
     m\<lparr>scrapingHistory :=
         take 50 (\<lparr>id_hist = id_job job, params_hist = params job,
                    startTime_hist = startTime job, status_hist = status job,
                    endTime_hist = None, extractedCount = None\<rparr> # scrapingHistory m)\<rparr>"

text \<open>\<^verbatim>\<open>findIndex\<close> stops at the first entry with the job's id; no entry, no write.\<close>

fun updateFirst :: "scrape_job \<Rightarrow> history_entry list \<Rightarrow> history_entry list" where
  "updateFirst job [] = []"
| "updateFirst job (e # es) =
     (if id_hist e = id_job job
      then e\<lparr>status_hist := status job, endTime_hist := endTime job,
              extractedCount := Some (length (extractedJobs job))\<rparr> # es
      else e # updateFirst job es)"

definition updateScrapingHistory :: "scrape_job \<Rightarrow> manager \<Rightarrow> manager" where
  "updateScrapingHistory job m = m\<lparr>scrapingHistory := updateFirst job (scrapingHistory m)\<rparr>"

subsection \<open>Admission\<close>

text \<open>
  \<^verbatim>\<open>startScrapeJob\<close> registers the job as running, then signals the tab. When the signal
  is rejected the job is deleted again and the error is thrown on: the first component is
  \<open>Some msg\<close> for the thrown error, \<open>None\<close> for a normal return.
\<close>

definition newJob :: "time \<Rightarrow> tab_id \<Rightarrow> scraping_params \<Rightarrow> scrape_job" where
  "newJob now t p =
     \<lparr>id_job = JobId now t, tabId = t, params = p, startTime = now, status = Running,
      progress = 0, extractedJobs = [], errors = [], lastUpdate = None, endTime = None\<rparr>"

definition startScrapeJob ::
  "time \<Rightarrow> string option \<Rightarrow> tab_id \<Rightarrow> scraping_params \<Rightarrow> manager \<Rightarrow> string option \<times> manager" where
  "startScrapeJob now send t p m =
     (let scrapingJob = newJob now t p;
          m1 = m\<lparr>activeScrapeJobs := AList.update t scrapingJob (activeScrapeJobs m)\<rparr>
      in case send of
           None \<Rightarrow> (None, addToScrapingHistory scrapingJob m1)
         | Some msg \<Rightarrow> (Some msg, m1\<lparr>activeScrapeJobs := AList.delete t (activeScrapeJobs m1)\<rparr>))"

datatype response = SuccessResp | QueuedResp nat | ErrorResp string

text \<open>
  \<^verbatim>\<open>handleStartScraping\<close>, with the answer \<^verbatim>\<open>sendResponse\<close> gets; an error thrown by
  \<^verbatim>\<open>startScrapeJob\<close> is caught by \<^verbatim>\<open>handleMessage\<close>, which answers with its message.
\<close>

definition handleStartScraping ::
  "time \<Rightarrow> string option \<Rightarrow> tab_id \<Rightarrow> scraping_params \<Rightarrow> manager \<Rightarrow> response \<times> manager" where
  "handleStartScraping now send t p m =
     (if has t (activeScrapeJobs m)
      then (ErrorResp ''Scraping already active in this tab'', m)
      else if length (activeScrapeJobs m) \<ge> maxConcurrentScrapes m
      then (let m1 = m\<lparr>scrapingQueue := scrapingQueue m @
                        [\<lparr>tabId_q = t, scrapingParams = p, timestamp_q = now\<rparr>]\<rparr>
            in (QueuedResp (length (scrapingQueue m1)), m1))
      else (case startScrapeJob now send t p m of
              (None, m1) \<Rightarrow> (SuccessResp, m1)
            | (Some msg, m1) \<Rightarrow> (ErrorResp msg, m1)))"

text \<open>\<^verbatim>\<open>processScrapingQueue\<close>: a failed start is logged and the request is gone.\<close>

definition processScrapingQueue :: "time \<Rightarrow> string option \<Rightarrow> manager \<Rightarrow> manager" where
  "processScrapingQueue now send m =
     (case scrapingQueue m of
        [] \<Rightarrow> m
      | queuedJob # rest \<Rightarrow>
          if length (activeScrapeJobs m) < maxConcurrentScrapes m
          then snd (startScrapeJob now send (tabId_q queuedJob) (scrapingParams queuedJob)
                      (m\<lparr>scrapingQueue := rest\<rparr>))
          else m)"

subsection \<open>Saving a finished job\<close>

fun removeKeys :: "'k list \<Rightarrow> ('k \<rightharpoonup> 'v) \<Rightarrow> ('k \<rightharpoonup> 'v)" where
  "removeKeys [] r = r"
| "removeKeys (k # ks) r = removeKeys ks (r(k := None))"

text \<open>The manager's own \<^verbatim>\<open>updateScrapingIndex\<close>: newest first, at most 100 entries.\<close>

definition updateScrapingIndex :: "result_data \<Rightarrow> manager \<Rightarrow> manager" where
  "updateScrapingIndex resultData m =
     (let indexEntry = \<lparr>id_idx = id_res resultData, timestamp = startTime_res resultData,
                         params_idx = params_res resultData, jobCount = jobCount_res resultData,
                         duration = duration_res resultData, status_idx = status_res resultData\<rparr>;
          index = indexEntry # scrapingIndex m;
          maxEntries = 100
      in if length index > maxEntries
         then m\<lparr>scrapingResults := removeKeys (map id_idx (drop maxEntries index)) (scrapingResults m),
                scrapingIndex := take maxEntries index\<rparr>
         else m\<lparr>scrapingIndex := index\<rparr>)"

definition saveScrapingResults :: "scrape_job \<Rightarrow> manager \<Rightarrow> manager" where
  "saveScrapingResults job m =
     (let resultData = \<lparr>id_res = id_job job, params_res = params job,
                         startTime_res = startTime job, endTime_res = endTime job,
                         duration_res = map_option (\<lambda>e. e - startTime job) (endTime job),
                         status_res = status job, jobCount_res = length (extractedJobs job),
                         jobs_res = extractedJobs job, errors_res = errors job\<rparr>
      in updateScrapingIndex resultData
           (m\<lparr>scrapingResults := (scrapingResults m)(id_job job \<mapsto> resultData)\<rparr>))"

subsection \<open>Cancellation and progress\<close>

text \<open>
  \<open>send\<close> is the outcome of the start signal to a queued request's tab, should the queue
  be processed. The stop signal's failure is caught and changes nothing.
\<close>

definition cancelScrapeJob :: "time \<Rightarrow> string option \<Rightarrow> tab_id \<Rightarrow> manager \<Rightarrow> manager" where
  "cancelScrapeJob now send t m =
     (case map_of (activeScrapeJobs m) t of
        None \<Rightarrow> m
      | Some job \<Rightarrow>
          (let job1 = job\<lparr>status := Cancelled, endTime := Some now\<rparr>;
               m1 = updateScrapingHistory job1 m;
               m2 = m1\<lparr>activeScrapeJobs := AList.delete t (activeScrapeJobs m1)\<rparr>
           in processScrapingQueue now send m2))"

definition handleTabRemoved :: "time \<Rightarrow> string option \<Rightarrow> tab_id \<Rightarrow> manager \<Rightarrow> manager" where
  "handleTabRemoved now send t m =
     (if has t (activeScrapeJobs m) then cancelScrapeJob now send t m else m)"

datatype progress_type = Info | Complete | Error

text \<open>
  \<^verbatim>\<open>progressData\<close>; an absent \<^verbatim>\<open>progress\<close> is 0 and an absent \<^verbatim>\<open>data\<close> is
  the empty list, as \<^verbatim>\<open>||\<close> makes them.
\<close>

record progress_data =
  type_pd :: progress_type
  progress_pd :: nat
  data_pd :: "job_record list"
  message_pd :: string

definition handleProgressUpdate ::
  "time \<Rightarrow> string option \<Rightarrow> tab_id \<Rightarrow> progress_data \<Rightarrow> manager \<Rightarrow> manager" where
  "handleProgressUpdate now send t pd m =
     (case map_of (activeScrapeJobs m) t of
        None \<Rightarrow> m
      | Some job \<Rightarrow>
          (let job1 = job\<lparr>progress := progress_pd pd, lastUpdate := Some now\<rparr>
           in case type_pd pd of
                Complete \<Rightarrow>
                  (let job2 = job1\<lparr>status := Completed, endTime := Some now,
                                    extractedJobs := data_pd pd\<rparr>;
                       m1 = saveScrapingResults job2 m;
                       m2 = m1\<lparr>activeScrapeJobs := AList.delete t (activeScrapeJobs m1)\<rparr>
                   in processScrapingQueue now send m2)
              | Error \<Rightarrow>
                  m\<lparr>activeScrapeJobs :=
                      AList.update t
                        (job1\<lparr>errors := errors job1 @
                                 [\<lparr>timestamp_err = now, message = message_pd pd\<rparr>]\<rparr>)
                        (activeScrapeJobs m)\<rparr>
              | Info \<Rightarrow> m\<lparr>activeScrapeJobs := AList.update t job1 (activeScrapeJobs m)\<rparr>))"

subsection \<open>The watchdog\<close>

definition staleTime :: int where
  "staleTime = 30 * 60 * 1000"

text \<open>
  \<^verbatim>\<open>currentTime - job.lastUpdate > staleTime\<close>. A job that has had no progress update
  has no \<^verbatim>\<open>lastUpdate\<close> field: the difference is \<^verbatim>\<open>NaN\<close> and the comparison false.
\<close>

definition isStale :: "time \<Rightarrow> scrape_job \<Rightarrow> bool" where
  "isStale currentTime job =
     (case lastUpdate job of None \<Rightarrow> False | Some u \<Rightarrow> currentTime - u > staleTime)"

definition timeoutJob :: "time \<Rightarrow> scrape_job \<Rightarrow> scrape_job" where
  "timeoutJob currentTime job =
     job\<lparr>status := Timeout, endTime := Some currentTime,
         errors := errors job @
           [\<lparr>timestamp_err = currentTime, message = ''Job timed out due to inactivity''\<rparr>]\<rparr>"

text \<open>The \<^verbatim>\<open>for \<dots> of\<close> loop over the map's entries; a deleted entry is not met again.\<close>

fun staleLoop :: "time \<Rightarrow> (tab_id \<times> scrape_job) list \<Rightarrow> manager \<Rightarrow> manager" where
  "staleLoop currentTime [] m = m"
| "staleLoop currentTime ((t, job) # rest) m =
     (if isStale currentTime job
      then (let m1 = updateScrapingHistory (timeoutJob currentTime job) m
            in staleLoop currentTime rest
                 (m1\<lparr>activeScrapeJobs := AList.delete t (activeScrapeJobs m1)\<rparr>))
      else staleLoop currentTime rest m)"

definition checkStaleJobs :: "time \<Rightarrow> manager \<Rightarrow> manager" where
  "checkStaleJobs currentTime m = staleLoop currentTime (activeScrapeJobs m) m"

subsection \<open>The retention sweep\<close>

text \<open>
  \<open>d\<close> is \<^verbatim>\<open>settings.dataRetentionDays\<close>, 0 when the settings have none
  (\<^verbatim>\<open>|| 30\<close> then gives 30 days). The loop sorts each index entry into the valid or
  the expired ones; results are removed and the index written only if something expired.
\<close>

definition cutoffTime :: "time \<Rightarrow> nat \<Rightarrow> time" where
  "cutoffTime now d =
     (let retentionDays = (if d = 0 then 30 else d)
      in now - int retentionDays * 24 * 60 * 60 * 1000)"

definition cleanupOldData :: "time \<Rightarrow> nat \<Rightarrow> manager \<Rightarrow> manager" where
  "cleanupOldData now d m =
     (let validEntries = filter (\<lambda>entry. timestamp entry > cutoffTime now d) (scrapingIndex m);
          expiredIds = map id_idx
            (filter (\<lambda>entry. \<not> timestamp entry > cutoffTime now d) (scrapingIndex m))
      in if length expiredIds > 0
         then m\<lparr>scrapingResults := removeKeys expiredIds (scrapingResults m),
                scrapingIndex := validEntries\<rparr>
         else m)"

subsection \<open>Deleting and exporting\<close>

text \<open>\<^verbatim>\<open>deleteScrapedData\<close> with \<^verbatim>\<open>filters.all\<close>: index, history and every result go.\<close>

definition deleteScrapedData_all :: "manager \<Rightarrow> manager" where
  "deleteScrapedData_all m =
     m\<lparr>scrapingIndex := [], scrapingHistory := [], scrapingResults := Map.empty\<rparr>"

text \<open>
  What an export hands to \<^verbatim>\<open>chrome.downloads.download\<close>. The text is kept as the
  value it is made from: \<open>JsonText x\<close> is \<^verbatim>\<open>JSON.stringify(x, null, 2)\<close> and
  \<open>CsvText x\<close> the CSV rendering of \<open>x\<close>; the file name is
  \<^verbatim>\<open>linkedin_jobs_${Date.now()}\<close> with the extension given.
\<close>

datatype 'a export_text = JsonText 'a | CsvText 'a

record 'a export_file =
  content :: "'a export_text"
  filename_time :: time
  filename_ext :: string
  mimeType :: string

text \<open>
  The manager's \<^verbatim>\<open>exportData\<close>; \<open>detailed\<close> is \<^verbatim>\<open>data.detailed\<close> as
  \<^verbatim>\<open>getScrapedData(filters)\<close> returned it. The \<^verbatim>\<open>default\<close> branch throws inside
  the \<^verbatim>\<open>try\<close>; the \<^verbatim>\<open>catch\<close> logs the error and the function returns normally,
  without a download: \<open>None\<close>.
\<close>

definition exportData :: "time \<Rightarrow> string \<Rightarrow> result_data list \<Rightarrow> result_data list export_file option" where
  "exportData now format detailed =
     (if format = ''json''
      then Some \<lparr>content = JsonText detailed, filename_time = now, filename_ext = ''json'',
                 mimeType = ''application/json''\<rparr>
      else if format = ''csv''
      then Some \<lparr>content = CsvText detailed, filename_time = now, filename_ext = ''csv'',
                 mimeType = ''text/csv''\<rparr>
      else None)"

text \<open>
  The \<^verbatim>\<open>EXPORT_DATA\<close> case of \<^verbatim>\<open>handleMessage\<close>: the export is awaited, then the
  caller is answered \<^verbatim>\<open>{ success: true }\<close>.
\<close>

definition handleMessage_EXPORT_DATA ::
  "time \<Rightarrow> string \<Rightarrow> result_data list \<Rightarrow> response \<times> result_data list export_file option" where
  "handleMessage_EXPORT_DATA now format detailed = (SuccessResp, exportData now format detailed)"

subsection \<open>Sequences of submissions\<close>

record submission =
  now_sub :: time
  send_sub :: "string option"
  tab_sub :: tab_id
  params_sub :: scraping_params

fun submitAll :: "submission list \<Rightarrow> manager \<Rightarrow> response list \<times> manager" where
  "submitAll [] m = ([], m)"
| "submitAll (x # xs) m =
     (case handleStartScraping (now_sub x) (send_sub x) (tab_sub x) (params_sub x) m of
        (r, m1) \<Rightarrow> (case submitAll xs m1 of (rs, m2) \<Rightarrow> (r # rs, m2)))"

text \<open>The requests of the submissions that were answered with a queue position, in order.\<close>

fun queuedRequests :: "submission list \<Rightarrow> response list \<Rightarrow> queued_request list" where
  "queuedRequests (x # xs) (QueuedResp n # rs) =
     \<lparr>tabId_q = tab_sub x, scrapingParams = params_sub x, timestamp_q = now_sub x\<rparr> #
     queuedRequests xs rs"
| "queuedRequests (x # xs) (r # rs) = queuedRequests xs rs"
| "queuedRequests xs rs = []"

text \<open>Watchdog ticks at the given times, one after the other.\<close>

fun watchdogTicks :: "time list \<Rightarrow> manager \<Rightarrow> manager" where
  "watchdogTicks [] m = m"
| "watchdogTicks (c # cs) m = watchdogTicks cs (checkStaleJobs c m)"

text \<open>The tabs of the entries a tick finds stale.\<close>

definition staleKeys :: "time \<Rightarrow> (tab_id \<times> scrape_job) list \<Rightarrow> tab_id set" where
  "staleKeys c al = set (map fst (filter (\<lambda>p. isStale c (snd p)) al))"


text \<open>A history entry that records the final state of a job.\<close>

definition recorded :: "scrape_job \<Rightarrow> history_entry \<Rightarrow> bool" where
  "recorded j e \<longleftrightarrow> id_hist e = id_job j \<and> status_hist e = status j \<and>
     endTime_hist e = endTime j \<and> extractedCount e = Some (length (extractedJobs j))"


subsection \<open>Sequences of events\<close>

text \<open>
  What reaches the manager while the settings stay as they are: the messages that change
  its state, a closed tab, and the two timers. Each event comes with the clock value of
  its run and the outcome of the start signal it may send.
\<close>

datatype event =
    StartScraping tab_id scraping_params
  | StopScraping tab_id
  | ProgressUpdate tab_id progress_data
  | TabRemoved tab_id
  | StaleCheck
  | Cleanup nat
  | DeleteAll

fun step :: "time \<Rightarrow> string option \<Rightarrow> event \<Rightarrow> manager \<Rightarrow> manager" where
  "step now send (StartScraping t p) m = snd (handleStartScraping now send t p m)"
| "step now send (StopScraping t) m = cancelScrapeJob now send t m"
| "step now send (ProgressUpdate t pd) m = handleProgressUpdate now send t pd m"
| "step now send (TabRemoved t) m = handleTabRemoved now send t m"
| "step now send StaleCheck m = checkStaleJobs now m"
| "step now send (Cleanup d) m = cleanupOldData now d m"
| "step now send DeleteAll m = deleteScrapedData_all m"

fun run :: "(time \<times> string option \<times> event) list \<Rightarrow> manager \<Rightarrow> manager" where
  "run [] m = m"
| "run ((now, send, e) # es) m = run es (step now send e m)"

text \<open>A registry with one entry per tab and no more entries than the ceiling allows.\<close>

definition within :: "manager \<Rightarrow> bool" where
  "within m \<longleftrightarrow> distinct (map fst (activeScrapeJobs m)) \<and>
     length (activeScrapeJobs m) \<le> maxConcurrentScrapes m"


section \<open>The storage manager (utils/storage.js)\<close>

text \<open>
  Session ids are strings. A session is what \<^verbatim>\<open>saveScrapingSession\<close> is given; an absent
  \<^verbatim>\<open>jobs\<close> array is the empty list.
\<close>

record session =
  id_s :: string
  startTime_s :: time
  endTime_s :: time
  status_s :: job_status
  params_s :: scraping_params
  jobs_s :: "job_record list"
  migrated :: bool

record store_entry =
  id_e :: string
  timestamp_e :: time
  endTime_e :: time
  params_e :: scraping_params
  jobCount_e :: nat
  duration_e :: int
  status_e :: job_status
  dataSize_e :: nat

record storage_stats =
  totalJobs :: nat
  totalSessions :: nat
  storageUsed :: nat
  lastCalculated :: time

text \<open>
  The keys of \<^verbatim>\<open>chrome.storage.local\<close> the storage manager works on: the index, the
  sessions under \<^verbatim>\<open>scraping_result_${id}\<close>, and the statistics.
\<close>

record store =
  index_st :: "store_entry list"
  sessions_st :: "string \<rightharpoonup> session"
  stats_st :: storage_stats

subsection \<open>Cleaning and deduplicating result records\<close>

text \<open>
  Whitespace as \<^verbatim>\<open>trim\<close> and the pattern \<^verbatim>\<open>\s\<close> see it, among the one-byte
  characters: tab, line feed, vertical tab, form feed, carriage return, space and the
  no-break space U+00A0.
\<close>

definition isSpace :: "char \<Rightarrow> bool" where
  "isSpace c =
     (c \<in> {CHR 0x09, CHR 0x0A, CHR 0x0B, CHR 0x0C, CHR 0x0D, CHR '' '', CHR 0xA0})"

definition trim :: "string \<Rightarrow> string" where
  "trim s = rev (dropWhile isSpace (rev (dropWhile isSpace s)))"

text \<open>
  \<^verbatim>\<open>standardizeDate\<close>. Parsing is the JavaScript \<^verbatim>\<open>Date\<close> constructor's business:
  \<open>toISO\<close> gives the ISO text of a date it can parse and \<open>None\<close> for one it cannot.
\<close>

definition standardizeDate :: "(string \<Rightarrow> string option) \<Rightarrow> string \<Rightarrow> string" where
  "standardizeDate toISO dateStr = (case toISO dateStr of None \<Rightarrow> dateStr | Some isoText \<Rightarrow> isoText)"

text \<open>
  The loop over \<^verbatim>\<open>Object.keys(cleaned)\<close> meets the keys the record has: a value that
  is \<^verbatim>\<open>null\<close>, \<^verbatim>\<open>undefined\<close> or the empty string becomes \<^verbatim>\<open>'N/A'\<close>, and a
  key the record lacks stays absent.
\<close>

definition orNA :: "field_value \<Rightarrow> field_value" where
  "orNA v =
     (case v of
        Absent \<Rightarrow> Absent
      | JsUndefined \<Rightarrow> JsString ''N/A''
      | JsNull \<Rightarrow> JsString ''N/A''
      | JsString s \<Rightarrow> if s = [] then JsString ''N/A'' else JsString s)"

text \<open>
  A date field is standardized when it is truthy (a string that is not empty) and not
  \<^verbatim>\<open>'N/A'\<close>.
\<close>

definition standardizeField :: "(string \<Rightarrow> string option) \<Rightarrow> field_value \<Rightarrow> field_value" where
  "standardizeField toISO v =
     (case v of
        JsString s \<Rightarrow> if s \<noteq> [] \<and> s \<noteq> ''N/A'' then JsString (standardizeDate toISO s) else v
      | _ \<Rightarrow> v)"

text \<open>A text field is trimmed when \<^verbatim>\<open>typeof\<close> says it is a string.\<close>

definition trimField :: "field_value \<Rightarrow> field_value" where
  "trimField v = (case v of JsString s \<Rightarrow> JsString (trim s) | _ \<Rightarrow> v)"

definition cleanJobData :: "(string \<Rightarrow> string option) \<Rightarrow> job_record \<Rightarrow> job_record" where
  "cleanJobData toISO job =
     (let cleaned = \<lparr>jobId = orNA (jobId job), jobTitle = orNA (jobTitle job),
                      companyName = orNA (companyName job), location = orNA (location job),
                      jobUrl = orNA (jobUrl job), jobDescription = orNA (jobDescription job),
                      seniorityLevel = orNA (seniorityLevel job),
                      employmentType = orNA (employmentType job),
                      jobFunction = orNA (jobFunction job), industries = orNA (industries job),
                      applicants = orNA (applicants job), datePosted = orNA (datePosted job),
                      listingDate = orNA (listingDate job), compressed = compressed job\<rparr>;
          cleaned1 = cleaned\<lparr>listingDate := standardizeField toISO (listingDate cleaned)\<rparr>;
          cleaned2 = cleaned1\<lparr>datePosted := standardizeField toISO (datePosted cleaned1)\<rparr>
      in cleaned2\<lparr>jobTitle := trimField (jobTitle cleaned2),
                  companyName := trimField (companyName cleaned2),
                  location := trimField (location cleaned2),
                  seniorityLevel := trimField (seniorityLevel cleaned2),
                  employmentType := trimField (employmentType cleaned2),
                  jobFunction := trimField (jobFunction cleaned2),
                  industries := trimField (industries cleaned2)\<rparr>)"

text \<open>
  What a template string makes of a value: an absent or undefined one reads
  \<^verbatim>\<open>undefined\<close>, \<^verbatim>\<open>null\<close> reads \<^verbatim>\<open>null\<close>.
\<close>

definition shown :: "field_value \<Rightarrow> string" where
  "shown v =
     (case v of
        Absent \<Rightarrow> ''undefined''
      | JsUndefined \<Rightarrow> ''undefined''
      | JsNull \<Rightarrow> ''null''
      | JsString s \<Rightarrow> s)"

text \<open>The key of a result record: \<^verbatim>\<open>`${job.jobId}_${job.jobUrl}`\<close>.\<close>

definition dedupKey :: "job_record \<Rightarrow> string" where
  "dedupKey job = shown (jobId job) @ ''_'' @ shown (jobUrl job)"

text \<open>The filter of \<^verbatim>\<open>deduplicateJobs\<close>, with the set \<^verbatim>\<open>seen\<close> it fills on its way.\<close>

fun dedupFrom :: "string set \<Rightarrow> job_record list \<Rightarrow> job_record list" where
  "dedupFrom seen [] = []"
| "dedupFrom seen (job # jobs) =
     (if dedupKey job \<in> seen then dedupFrom seen jobs
      else job # dedupFrom (insert (dedupKey job) seen) jobs)"

definition deduplicateJobs :: "job_record list \<Rightarrow> job_record list" where
  "deduplicateJobs jobs = dedupFrom {} jobs"

text \<open>
  \<^verbatim>\<open>compressText\<close>: every run of whitespace becomes one space (after which no line feed
  is left for the second replacement), then the ends are trimmed.
\<close>

function collapseSpaces :: "string \<Rightarrow> string" where
  "collapseSpaces [] = []"
| "collapseSpaces (c # cs) =
     (if isSpace c then CHR '' '' # collapseSpaces (dropWhile isSpace cs)
      else c # collapseSpaces cs)"
  by pat_completeness auto
termination
  by (relation "measure length") (auto simp: le_imp_less_Suc length_dropWhile_le)

definition compressText :: "string \<Rightarrow> string" where
  "compressText s = trim (collapseSpaces s)"

definition compressionThreshold :: nat where
  "compressionThreshold = 1024"

text \<open>
  The description is compressed when it is truthy and longer than the threshold, which only
  a string can be.
\<close>

definition compressJob :: "job_record \<Rightarrow> job_record" where
  "compressJob job =
     (case jobDescription job of
        JsString s \<Rightarrow>
          if s \<noteq> [] \<and> length s > compressionThreshold
          then job\<lparr>jobDescription := JsString (compressText s), compressed := True\<rparr>
          else job
      | _ \<Rightarrow> job)"

definition optimizeDataForStorage :: "(string \<Rightarrow> string option) \<Rightarrow> session \<Rightarrow> session" where
  "optimizeDataForStorage toISO data =
     data\<lparr>jobs_s := map compressJob (deduplicateJobs (map (cleanJobData toISO) (jobs_s data)))\<rparr>"

subsection \<open>Index, statistics and deletion\<close>

definition calculateStorageStats :: "time \<Rightarrow> store \<Rightarrow> store" where
  "calculateStorageStats now st =
     st\<lparr>stats_st :=
          \<lparr>totalJobs = sum_list (map jobCount_e (index_st st)),
           totalSessions = length (index_st st),
           storageUsed = sum_list (map dataSize_e (index_st st)),
           lastCalculated = now\<rparr>\<rparr>"

definition updateStorageStats :: "time \<Rightarrow> store \<Rightarrow> store" where
  "updateStorageStats now st = calculateStorageStats now st"

definition deleteScrapingSession :: "time \<Rightarrow> string \<Rightarrow> store \<Rightarrow> store" where
  "deleteScrapingSession now sessionId st =
     updateStorageStats now
       (st\<lparr>sessions_st := (sessions_st st)(sessionId := None),
           index_st := filter (\<lambda>entry. id_e entry \<noteq> sessionId) (index_st st)\<rparr>)"

definition deleteMultipleSessions :: "time \<Rightarrow> string list \<Rightarrow> store \<Rightarrow> store" where
  "deleteMultipleSessions now sessionIds st =
     updateStorageStats now
       (st\<lparr>sessions_st := removeKeys sessionIds (sessions_st st),
           index_st := filter (\<lambda>entry. id_e entry \<notin> set sessionIds) (index_st st)\<rparr>)"

text \<open>
  \<^verbatim>\<open>findIndex\<close> and the assignment \<^verbatim>\<open>index[existingIndex] = indexEntry\<close>: the first
  entry with the id is replaced where it stands; with no such entry the new one goes to
  the front.
\<close>

fun replaceFirst :: "store_entry \<Rightarrow> store_entry list \<Rightarrow> store_entry list option" where
  "replaceFirst new [] = None"
| "replaceFirst new (e # es) =
     (if id_e e = id_e new then Some (new # es)
      else map_option ((#) e) (replaceFirst new es))"

definition upsert :: "store_entry \<Rightarrow> store_entry list \<Rightarrow> store_entry list" where
  "upsert new index = (case replaceFirst new index of Some index' \<Rightarrow> index' | None \<Rightarrow> new # index)"

text \<open>
  \<^verbatim>\<open>updateScrapingIndex\<close>. \<open>getDataSize\<close> is the byte length of the session's JSON
  text. \<open>cap\<close> is the constant \<^verbatim>\<open>maxIndexEntries\<close>. The entries past the cap are cut off
  the array in hand and each is deleted with \<^verbatim>\<open>deleteScrapingSession\<close>, which works on
  the stored index; the array in hand is stored last.
\<close>

definition indexEntryOf :: "(session \<Rightarrow> nat) \<Rightarrow> session \<Rightarrow> store_entry" where
  "indexEntryOf getDataSize sessionData =
     \<lparr>id_e = id_s sessionData, timestamp_e = startTime_s sessionData,
      endTime_e = endTime_s sessionData, params_e = params_s sessionData,
      jobCount_e = length (jobs_s sessionData),
      duration_e = endTime_s sessionData - startTime_s sessionData,
      status_e = status_s sessionData, dataSize_e = getDataSize sessionData\<rparr>"

definition updateScrapingIndexWith ::
  "nat \<Rightarrow> (session \<Rightarrow> nat) \<Rightarrow> time \<Rightarrow> session \<Rightarrow> store \<Rightarrow> store" where
  "updateScrapingIndexWith cap getDataSize now sessionData st =
     (let index = upsert (indexEntryOf getDataSize sessionData) (index_st st)
      in if length index > cap
         then (foldl (\<lambda>s entry. deleteScrapingSession now (id_e entry) s) st (drop cap index))
                \<lparr>index_st := take cap index\<rparr>
         else st\<lparr>index_st := index\<rparr>)"

definition maxIndexEntries :: nat where
  "maxIndexEntries = 1000"

definition updateScrapingIndex_sm :: "(session \<Rightarrow> nat) \<Rightarrow> time \<Rightarrow> session \<Rightarrow> store \<Rightarrow> store" where
  "updateScrapingIndex_sm = updateScrapingIndexWith maxIndexEntries"

subsection \<open>Quota and saving\<close>

text \<open>
  \<^verbatim>\<open>performStorageCleanup\<close>: the index sorted by timestamp, oldest first (the sort is
  stable), and the first quarter of it, rounded down, deleted.
\<close>

definition sessionsToRemove :: "store \<Rightarrow> store_entry list" where
  "sessionsToRemove st =
     (let index = sort_key timestamp_e (index_st st);
          removeCount = length index div 4
      in take removeCount index)"

definition performStorageCleanup :: "time \<Rightarrow> store \<Rightarrow> store" where
  "performStorageCleanup now st =
     (if length (sessionsToRemove st) > 0
      then deleteMultipleSessions now (map id_e (sessionsToRemove st)) st
      else st)"

text \<open>
  \<^verbatim>\<open>checkStorageQuota\<close>. \<open>bytesInUse\<close> is what \<^verbatim>\<open>getBytesInUse()\<close> answers and
  \<open>quota\<close> is \<^verbatim>\<open>chrome.storage.local.QUOTA_BYTES\<close>. The source compares
  \<^verbatim>\<open>(bytesInUse / quota) * 100 > 80\<close> in floating point; here the comparison is exact.
\<close>

definition checkStorageQuota :: "time \<Rightarrow> nat \<Rightarrow> nat \<Rightarrow> store \<Rightarrow> store" where
  "checkStorageQuota now bytesInUse quota st =
     (if bytesInUse * 100 > 80 * quota then performStorageCleanup now st else st)"

record save_result =
  sessionId :: string
  dataSize :: nat

text \<open>\<^verbatim>\<open>saveScrapingSession\<close>, with the steps in the order of the source.\<close>

definition saveScrapingSessionWith ::
  "nat \<Rightarrow> (string \<Rightarrow> string option) \<Rightarrow> (session \<Rightarrow> nat) \<Rightarrow> time \<Rightarrow> nat \<Rightarrow> nat \<Rightarrow>
   session \<Rightarrow> store \<Rightarrow> save_result \<times> store" where
  "saveScrapingSessionWith cap toISO getDataSize now bytesInUse quota sessionData st =
     (let optimizedData = optimizeDataForStorage toISO sessionData;
          st1 = checkStorageQuota now bytesInUse quota st;
          st2 = st1\<lparr>sessions_st := (sessions_st st1)(id_s sessionData \<mapsto> optimizedData)\<rparr>;
          st3 = updateScrapingIndexWith cap getDataSize now sessionData st2;
          st4 = updateStorageStats now st3
      in (\<lparr>sessionId = id_s sessionData, dataSize = getDataSize optimizedData\<rparr>, st4))"

definition saveScrapingSession ::
  "(string \<Rightarrow> string option) \<Rightarrow> (session \<Rightarrow> nat) \<Rightarrow> time \<Rightarrow> nat \<Rightarrow> nat \<Rightarrow>
   session \<Rightarrow> store \<Rightarrow> save_result \<times> store" where
  "saveScrapingSession = saveScrapingSessionWith maxIndexEntries"

subsection \<open>Export\<close>

datatype export_data = Sessions "session list" | Jobs "job_record list"

text \<open>
  The storage manager's \<^verbatim>\<open>exportData\<close>; \<open>sessions\<close> is what
  \<^verbatim>\<open>getScrapingSessions\<close> returned and \<open>format\<close> the option given, \<open>None\<close> when
  \<^verbatim>\<open>options.format\<close> is undefined (the default is then \<^verbatim>\<open>'json'\<close>). An error thrown
  in the \<^verbatim>\<open>switch\<close> is logged and thrown again: \<open>Inl\<close> with its message.
\<close>

definition exportData_sm ::
  "time \<Rightarrow> string option \<Rightarrow> bool \<Rightarrow> session list \<Rightarrow> string + export_data export_file" where
  "exportData_sm now format includeDetails sessions =
     (let fmt = (case format of None \<Rightarrow> ''json'' | Some f \<Rightarrow> f);
          exported = (if includeDetails then Sessions sessions
                      else Jobs (concat (map jobs_s sessions)))
      in if fmt = ''json''
         then Inr \<lparr>content = JsonText exported, filename_time = now, filename_ext = ''json'',
                   mimeType = ''application/json''\<rparr>
         else if fmt = ''csv''
         then Inr \<lparr>content = CsvText exported, filename_time = now, filename_ext = ''csv'',
                   mimeType = ''text/csv''\<rparr>
         else if fmt = ''xlsx''
         then Inl ''XLSX export not implemented yet''
         else Inl (''Unsupported format: '' @ fmt))"

section \<open>Example data\<close>

definition exParams :: scraping_params where
  "exParams = \<lparr>jobTitle_param = ''Engineer'', location_param = ''City A'', maxPages = 2\<rparr>"

definition exSub :: "time \<Rightarrow> tab_id \<Rightarrow> submission" where
  "exSub now t = \<lparr>now_sub = now, send_sub = None, tab_sub = t, params_sub = exParams\<rparr>"

definition minutes :: "int \<Rightarrow> int" where
  "minutes n = n * 60 * 1000"

text \<open>Ceiling 2, tabs 1 and 2 running, tab 3 queued.\<close>

definition exBusy :: manager where
  "exBusy = snd (submitAll [exSub 0 1, exSub 1 2, exSub 2 3] (newManager 2))"

text \<open>
  Ceiling 1: tab 1 is running and had its last progress update at time 1000; tab 2 is
  queued behind it.
\<close>

definition exWaiting :: manager where
  "exWaiting =
     handleProgressUpdate 1000 None 1
       \<lparr>type_pd = Info, progress_pd = 10, data_pd = [], message_pd = ''Starting''\<rparr>
       (snd (submitAll [exSub 0 1, exSub 1 2] (newManager 1)))"

text \<open>
  Ceiling 2: tab 1 is running with its last progress update at time 1000, and the user has
  since deleted all scraped data.
\<close>

definition exForgotten :: manager where
  "exForgotten =
     deleteScrapedData_all
       (handleProgressUpdate 1000 None 1
          \<lparr>type_pd = Info, progress_pd = 10, data_pd = [], message_pd = ''Starting''\<rparr>
          (snd (handleStartScraping 0 None 1 exParams (newManager 2))))"

text \<open>
  A stored index of two sessions, one started on day 59 and one on day 20 (a day being
  \<open>exDay\<close> milliseconds), each with its result record.
\<close>

definition exDay :: int where
  "exDay = 24 * 60 * 60 * 1000"

definition exEntry :: "time \<Rightarrow> tab_id \<Rightarrow> index_entry" where
  "exEntry ts t =
     \<lparr>id_idx = JobId ts t, timestamp = ts, params_idx = exParams, jobCount = 0,
      duration = Some 5, status_idx = Completed\<rparr>"

definition exResult :: "time \<Rightarrow> tab_id \<Rightarrow> result_data" where
  "exResult ts t =
     \<lparr>id_res = JobId ts t, params_res = exParams, startTime_res = ts,
      endTime_res = Some (ts + 5), duration_res = Some 5, status_res = Completed,
      jobCount_res = 0, jobs_res = [], errors_res = []\<rparr>"

definition exStored :: manager where
  "exStored =
     (newManager 2)
       \<lparr>scrapingIndex := [exEntry (59 * exDay) 1, exEntry (20 * exDay) 2],
        scrapingResults := [JobId (59 * exDay) 1 \<mapsto> exResult (59 * exDay) 1,
                            JobId (20 * exDay) 2 \<mapsto> exResult (20 * exDay) 2]\<rparr>"

text \<open>
  A fresh store, sessions that differ in id and start time only, a size function and a
  date parser to run the storage manager with, and a run of saves one after the other.
\<close>

definition emptyStore :: "time \<Rightarrow> store" where
  "emptyStore now =
     \<lparr>index_st = [], sessions_st = Map.empty,
      stats_st = \<lparr>totalJobs = 0, totalSessions = 0, storageUsed = 0, lastCalculated = now\<rparr>\<rparr>"

definition exSession :: "string \<Rightarrow> time \<Rightarrow> session" where
  "exSession i start =
     \<lparr>id_s = i, startTime_s = start, endTime_s = start + 5, status_s = Completed,
      params_s = exParams, jobs_s = [], migrated = False\<rparr>"

definition exSize :: "session \<Rightarrow> nat" where
  "exSize s = 100"

definition exISO :: "string \<Rightarrow> string option" where
  "exISO s = None"

fun saveAll :: "nat \<Rightarrow> nat \<Rightarrow> nat \<Rightarrow> session list \<Rightarrow> store \<Rightarrow> store" where
  "saveAll cap bytesInUse quota [] st = st"
| "saveAll cap bytesInUse quota (s # ss) st =
     saveAll cap bytesInUse quota ss
       (snd (saveScrapingSessionWith cap exISO exSize (endTime_s s) bytesInUse quota s st))"

text \<open>Eight sessions saved in the order they were started, under little storage use.\<close>

definition exStore8 :: store where
  "exStore8 =
     saveAll 1000 10 100
       [exSession ''s1'' 10, exSession ''s2'' 20, exSession ''s3'' 30, exSession ''s4'' 40,
        exSession ''s5'' 50, exSession ''s6'' 60, exSession ''s7'' 70, exSession ''s8'' 80]
       (emptyStore 0)"

text \<open>
  Three sessions saved in the order they finished, which is not the order they started:
  \<open>a\<close> started last and finished first.
\<close>

definition exOutOfOrder :: "session list" where
  "exOutOfOrder =
     [\<lparr>id_s = ''a'', startTime_s = 5, endTime_s = 6, status_s = Completed,
       params_s = exParams, jobs_s = [], migrated = False\<rparr>,
      \<lparr>id_s = ''b'', startTime_s = 3, endTime_s = 7, status_s = Completed,
       params_s = exParams, jobs_s = [], migrated = False\<rparr>,
      \<lparr>id_s = ''c'', startTime_s = 4, endTime_s = 8, status_s = Completed,
       params_s = exParams, jobs_s = [], migrated = False\<rparr>]"

text \<open>Five sessions saved in the order they started, into an index capped at three.\<close>

definition exFive :: store where
  "exFive =
     saveAll 3 10 100
       [exSession ''s1'' 10, exSession ''s2'' 20, exSession ''s3'' 30, exSession ''s4'' 40,
        exSession ''s5'' 50]
       (emptyStore 0)"

text \<open>
  Result records that differ in id and URL only, and a session of three of them: the second
  and the third are the same record, the first has another id and another URL.
\<close>

definition exJob :: "string \<Rightarrow> string \<Rightarrow> job_record" where
  "exJob i u =
     \<lparr>jobId = JsString i, jobTitle = JsString ''Engineer'', companyName = JsString ''Acme'',
      location = JsString ''City A'', jobUrl = JsString u, jobDescription = JsString ''N/A'',
      seniorityLevel = JsString ''N/A'', employmentType = JsString ''N/A'',
      jobFunction = JsString ''N/A'', industries = JsString ''N/A'',
      applicants = JsString ''N/A'', datePosted = JsString ''N/A'',
      listingDate = JsString ''N/A'', compressed = False\<rparr>"

definition exColliding :: session where
  "exColliding =
     \<lparr>id_s = ''x'', startTime_s = 1, endTime_s = 2, status_s = Completed, params_s = exParams,
      jobs_s = [exJob ''a_b'' ''c'', exJob ''a'' ''b_c'', exJob ''a'' ''b_c''], migrated = False\<rparr>"

text \<open>
  Three submissions under ceiling 2, then tab 1 completes, the watchdog ticks, tab 2 is
  closed and the retention sweep runs.
\<close>

definition exEvents :: "(time \<times> string option \<times> event) list" where
  "exEvents =
     [(0, None, StartScraping 1 exParams), (1, None, StartScraping 2 exParams),
      (2, None, StartScraping 3 exParams),
      (1000, None, ProgressUpdate 1
         \<lparr>type_pd = Complete, progress_pd = 100, data_pd = [], message_pd = ''Done''\<rparr>),
      (2000, None, StaleCheck), (3000, None, TabRemoved 2), (4000, None, Cleanup 30)]"

text \<open>
  Ceiling 2: tab 2 starts a job on day 30 exactly and tab 1 one millisecond later; both
  complete five milliseconds after their start, with no records.
\<close>

definition exDone :: progress_data where
  "exDone = \<lparr>type_pd = Complete, progress_pd = 100, data_pd = [], message_pd = ''Done''\<rparr>"

definition exBoundary :: manager where
  "exBoundary =
     run [(30 * exDay, None, StartScraping 2 exParams),
          (30 * exDay + 1, None, StartScraping 1 exParams),
          (30 * exDay + 5, None, ProgressUpdate 2 exDone),
          (30 * exDay + 6, None, ProgressUpdate 1 exDone)]
       (newManager 2)"

text \<open>
  Ceiling 1: tab 1 runs, tab 2 is queued, tab 1 reports progress at time 1000 and the
  watchdog ticks 31 minutes later.
\<close>

definition exTimedOut :: manager where
  "exTimedOut =
     run [(0, None, StartScraping 1 exParams), (1, None, StartScraping 2 exParams),
          (1000, None, ProgressUpdate 1
             \<lparr>type_pd = Info, progress_pd = 10, data_pd = [], message_pd = ''Starting''\<rparr>),
          (1000 + minutes 31, None, StaleCheck)]
       (newManager 1)"

text \<open>
  Ceiling 1: tab 1 runs, tabs 2 and 3 are queued; tab 1 completes at time 1000 and the start
  signal to tab 2, the head of the queue, is rejected.
\<close>

definition exFailedDrain :: manager where
  "exFailedDrain =
     run [(0, None, StartScraping 1 exParams), (1, None, StartScraping 2 exParams),
          (2, None, StartScraping 3 exParams),
          (1000, Some ''Could not establish connection'', ProgressUpdate 1 exDone)]
       (newManager 1)"

section \<open>Properties of the orchestrator\<close>

subsection \<open>Association lists\<close>

lemma length_update_notin: "map_of al k = None \<Longrightarrow> length (AList.update k v al) = Suc (length al)"
  by (induction al) auto

lemma length_update_in: "map_of al k \<noteq> None \<Longrightarrow> length (AList.update k v al) = length al"
  by (induction al) auto

lemma update_notin_append: "map_of al k = None \<Longrightarrow> AList.update k v al = al @ [(k, v)]"
  by (induction al) auto

lemma delete_notin: "map_of al k = None \<Longrightarrow> AList.delete k al = al"
  by (induction al) (auto split: if_splits)

lemma delete_update_notin: "map_of al k = None \<Longrightarrow> AList.delete k (AList.update k v al) = al"
  by (simp add: delete_update_same delete_notin)

lemma has_iff: "has t al \<longleftrightarrow> t \<in> fst ` set al"
  by (simp add: has_def map_of_eq_None_iff)

lemma hs_rejected:
  "has t (activeScrapeJobs m) \<Longrightarrow>
   handleStartScraping now send t p m = (ErrorResp ''Scraping already active in this tab'', m)"
  by (simp add: handleStartScraping_def)

lemma hs_queued:
  "\<not> has t (activeScrapeJobs m) \<Longrightarrow> maxConcurrentScrapes m \<le> length (activeScrapeJobs m) \<Longrightarrow>
   handleStartScraping now send t p m =
     (QueuedResp (Suc (length (scrapingQueue m))),
      m\<lparr>scrapingQueue := scrapingQueue m @
           [\<lparr>tabId_q = t, scrapingParams = p, timestamp_q = now\<rparr>]\<rparr>)"
  by (simp add: handleStartScraping_def Let_def)

lemma hs_started:
  "\<not> has t (activeScrapeJobs m) \<Longrightarrow> length (activeScrapeJobs m) < maxConcurrentScrapes m \<Longrightarrow>
   handleStartScraping now None t p m =
     (SuccessResp,
      addToScrapingHistory (newJob now t p)
        (m\<lparr>activeScrapeJobs := activeScrapeJobs m @ [(t, newJob now t p)]\<rparr>))"
  by (simp add: handleStartScraping_def startScrapeJob_def Let_def has_def update_notin_append)

lemma hs_failed:
  "\<not> has t (activeScrapeJobs m) \<Longrightarrow> length (activeScrapeJobs m) < maxConcurrentScrapes m \<Longrightarrow>
   handleStartScraping now (Some msg) t p m = (ErrorResp msg, m)"
  by (simp add: handleStartScraping_def startScrapeJob_def Let_def has_def delete_update_notin)

lemma hs_cases:
  obtains "has t (activeScrapeJobs m)"
  | "\<not> has t (activeScrapeJobs m)" "maxConcurrentScrapes m \<le> length (activeScrapeJobs m)"
  | "\<not> has t (activeScrapeJobs m)" "length (activeScrapeJobs m) < maxConcurrentScrapes m" "send = None"
  | msg where "\<not> has t (activeScrapeJobs m)" "length (activeScrapeJobs m) < maxConcurrentScrapes m" "send = Some msg"
proof (cases "has t (activeScrapeJobs m)")
  case True
  then show ?thesis by (rule that(1))
next
  case nh: False
  show ?thesis
  proof (cases "maxConcurrentScrapes m \<le> length (activeScrapeJobs m)")
    case True
    with nh show ?thesis by (rule that(2))
  next
    case False
    then have lt: "length (activeScrapeJobs m) < maxConcurrentScrapes m" by simp
    show ?thesis
    proof (cases send)
      case None
      with nh lt show ?thesis by (rule that(3))
    next
      case (Some msg)
      with nh lt show ?thesis by (rule that(4))
    qed
  qed
qed

lemma hs_max [simp]:
  "maxConcurrentScrapes (snd (handleStartScraping now send t p m)) = maxConcurrentScrapes m"
  by (rule hs_cases[where t=t and m=m and send=send])
     (simp_all add: hs_rejected hs_queued hs_started hs_failed addToScrapingHistory_def)

lemma hs_bound:
  "length (activeScrapeJobs m) \<le> maxConcurrentScrapes m \<Longrightarrow>
   length (activeScrapeJobs (snd (handleStartScraping now send t p m))) \<le> maxConcurrentScrapes m"
  by (rule hs_cases[where t=t and m=m and send=send])
     (simp_all add: hs_rejected hs_queued hs_started hs_failed addToScrapingHistory_def)

lemma hs_distinct:
  "distinct (map fst (activeScrapeJobs m)) \<Longrightarrow>
   distinct (map fst (activeScrapeJobs (snd (handleStartScraping now send t p m))))"
  by (rule hs_cases[where t=t and m=m and send=send])
     (simp_all add: hs_rejected hs_queued hs_started hs_failed addToScrapingHistory_def has_iff)

lemma submitAll_Cons_snd:
  "snd (submitAll (x # xs) m) =
     snd (submitAll xs (snd (handleStartScraping (now_sub x) (send_sub x) (tab_sub x) (params_sub x) m)))"
  by (simp split: prod.splits)

lemma submitAll_Cons_fst:
  "fst (submitAll (x # xs) m) =
     fst (handleStartScraping (now_sub x) (send_sub x) (tab_sub x) (params_sub x) m) #
     fst (submitAll xs (snd (handleStartScraping (now_sub x) (send_sub x) (tab_sub x) (params_sub x) m)))"
  by (simp split: prod.splits)

lemma submitAll_max [simp]:
  "maxConcurrentScrapes (snd (submitAll subs m)) = maxConcurrentScrapes m"
proof (induction subs arbitrary: m)
  case Nil
  show ?case by simp
next
  case (Cons x xs)
  have "maxConcurrentScrapes (snd (submitAll xs (snd (handleStartScraping (now_sub x) (send_sub x) (tab_sub x) (params_sub x) m)))) = maxConcurrentScrapes m"
    by (simp add: Cons.IH)
  then show ?case by (simp only: submitAll_Cons_snd)
qed

lemma submitAll_bound:
  "length (activeScrapeJobs m) \<le> maxConcurrentScrapes m \<Longrightarrow>
   length (activeScrapeJobs (snd (submitAll subs m))) \<le> maxConcurrentScrapes m"
proof (induction subs arbitrary: m)
  case Nil
  then show ?case by simp
next
  case (Cons x xs)
  let ?m1 = "snd (handleStartScraping (now_sub x) (send_sub x) (tab_sub x) (params_sub x) m)"
  have "length (activeScrapeJobs ?m1) \<le> maxConcurrentScrapes ?m1"
    using Cons.prems by (simp add: hs_bound)
  from Cons.IH[OF this] show ?case by (simp add: submitAll_Cons_snd del: submitAll.simps)
qed

lemma submitAll_distinct:
  "distinct (map fst (activeScrapeJobs m)) \<Longrightarrow>
   distinct (map fst (activeScrapeJobs (snd (submitAll subs m))))"
proof (induction subs arbitrary: m)
  case Nil
  then show ?case by simp
next
  case (Cons x xs)
  from Cons.IH[OF hs_distinct[OF Cons.prems]] show ?case
    by (simp only: submitAll_Cons_snd)
qed

lemma hs_queue:
  "scrapingQueue (snd (handleStartScraping now send t p m)) =
     scrapingQueue m @
       (case fst (handleStartScraping now send t p m) of
          QueuedResp n \<Rightarrow> [\<lparr>tabId_q = t, scrapingParams = p, timestamp_q = now\<rparr>]
        | _ \<Rightarrow> [])"
  by (rule hs_cases[where t=t and m=m and send=send])
     (simp_all add: hs_rejected hs_queued hs_started hs_failed addToScrapingHistory_def)

lemma submitAll_queue:
  "scrapingQueue (snd (submitAll subs m)) =
     scrapingQueue m @ queuedRequests subs (fst (submitAll subs m))"
proof (induction subs arbitrary: m)
  case Nil
  show ?case by simp
next
  case (Cons x xs)
  obtain r m1 where h: "handleStartScraping (now_sub x) (send_sub x) (tab_sub x) (params_sub x) m = (r, m1)"
    by (cases "handleStartScraping (now_sub x) (send_sub x) (tab_sub x) (params_sub x) m")
  obtain rs m2 where s: "submitAll xs m1 = (rs, m2)" by (cases "submitAll xs m1")
  have q1: "scrapingQueue m1 = scrapingQueue m @
       (case r of QueuedResp n \<Rightarrow> [\<lparr>tabId_q = tab_sub x, scrapingParams = params_sub x, timestamp_q = now_sub x\<rparr>] | _ \<Rightarrow> [])"
    using hs_queue[of "now_sub x" "send_sub x" "tab_sub x" "params_sub x" m] h by simp
  have q2: "scrapingQueue m2 = scrapingQueue m1 @ queuedRequests xs rs"
    using Cons.IH[of m1] s by simp
  show ?case using h s q1 q2 by (cases r) simp_all
qed


lemma submitAll_fill:
  "distinct (map tab_sub subs) \<Longrightarrow> \<forall>x\<in>set subs. send_sub x = None \<Longrightarrow>
   set (map tab_sub subs) \<inter> fst ` set (activeScrapeJobs m) = {} \<Longrightarrow>
   length (activeScrapeJobs m) \<le> maxConcurrentScrapes m \<Longrightarrow>
   map fst (activeScrapeJobs (snd (submitAll subs m))) =
     map fst (activeScrapeJobs m) @
     map tab_sub (take (maxConcurrentScrapes m - length (activeScrapeJobs m)) subs) \<and>
   map tabId_q (scrapingQueue (snd (submitAll subs m))) =
     map tabId_q (scrapingQueue m) @
     map tab_sub (drop (maxConcurrentScrapes m - length (activeScrapeJobs m)) subs)"
proof (induction subs arbitrary: m)
  case Nil
  show ?case by simp
next
  case (Cons x xs)
  let ?h = "handleStartScraping (now_sub x) (send_sub x) (tab_sub x) (params_sub x) m"
  have nh: "\<not> has (tab_sub x) (activeScrapeJobs m)"
    using Cons.prems(3) by (auto simp: has_iff)
  have sn: "send_sub x = None" using Cons.prems(2) by simp
  show ?case
  proof (cases "length (activeScrapeJobs m) < maxConcurrentScrapes m")
    case True
    have a1: "activeScrapeJobs (snd ?h) = activeScrapeJobs m @ [(tab_sub x, newJob (now_sub x) (tab_sub x) (params_sub x))]"
      and q1: "scrapingQueue (snd ?h) = scrapingQueue m"
      and c1: "maxConcurrentScrapes (snd ?h) = maxConcurrentScrapes m"
      using nh True sn by (simp_all add: hs_started addToScrapingHistory_def)
    have d: "distinct (map tab_sub xs)" and s: "\<forall>x\<in>set xs. send_sub x = None"
      using Cons.prems(1,2) by simp_all
    have i: "set (map tab_sub xs) \<inter> fst ` set (activeScrapeJobs (snd ?h)) = {}"
      using Cons.prems(1,3) by (auto simp: a1)
    have l: "length (activeScrapeJobs (snd ?h)) \<le> maxConcurrentScrapes (snd ?h)"
      using True by (simp add: a1 c1)
    have k: "maxConcurrentScrapes m - length (activeScrapeJobs m) =
             Suc (maxConcurrentScrapes m - Suc (length (activeScrapeJobs m)))"
      using True by simp
    from Cons.IH[OF d s i l] show ?thesis
      by (simp only: submitAll_Cons_snd) (simp add: a1 q1 c1 k)
  next
    case False
    then have ge: "maxConcurrentScrapes m \<le> length (activeScrapeJobs m)" by simp
    have a1: "activeScrapeJobs (snd ?h) = activeScrapeJobs m"
      and q1: "scrapingQueue (snd ?h) = scrapingQueue m @
                 [\<lparr>tabId_q = tab_sub x, scrapingParams = params_sub x, timestamp_q = now_sub x\<rparr>]"
      and c1: "maxConcurrentScrapes (snd ?h) = maxConcurrentScrapes m"
      using nh ge by (simp_all add: hs_queued)
    have d: "distinct (map tab_sub xs)" and s: "\<forall>x\<in>set xs. send_sub x = None"
      using Cons.prems(1,2) by simp_all
    have i: "set (map tab_sub xs) \<inter> fst ` set (activeScrapeJobs (snd ?h)) = {}"
      using Cons.prems(3) by (auto simp: a1)
    have l: "length (activeScrapeJobs (snd ?h)) \<le> maxConcurrentScrapes (snd ?h)"
      using Cons.prems(4) by (simp add: a1 c1)
    have k: "maxConcurrentScrapes m - length (activeScrapeJobs m) = 0"
      using ge by simp
    from Cons.IH[OF d s i l] show ?thesis
      by (simp only: submitAll_Cons_snd) (simp add: a1 q1 c1 k)
  qed
qed

lemma submitAll_fresh:
  "distinct (map tab_sub subs) \<Longrightarrow> \<forall>x\<in>set subs. send_sub x = None \<Longrightarrow>
   map fst (activeScrapeJobs (snd (submitAll subs (newManager c)))) = map tab_sub (take c subs) \<and>
   map tabId_q (scrapingQueue (snd (submitAll subs (newManager c)))) = map tab_sub (drop c subs)"
  using submitAll_fill[of subs "newManager c"] by (simp add: newManager_def)

subsection \<open>The example managers\<close>

lemma exBusy_fields:
  "activeScrapeJobs exBusy = [(1, newJob 0 1 exParams), (2, newJob 1 2 exParams)]"
  "scrapingQueue exBusy = [\<lparr>tabId_q = 3, scrapingParams = exParams, timestamp_q = 2\<rparr>]"
  "maxConcurrentScrapes exBusy = 2"
  by (simp_all add: exBusy_def exSub_def newManager_def handleStartScraping_def
        startScrapeJob_def addToScrapingHistory_def has_def Let_def)

text \<open>
  Claim C1, as amended. A submit from a tab that has a running job is answered with the
  error and changes nothing. Otherwise, below the ceiling the job is registered as running
  at the end of the registry, the queue untouched, when the start signal is delivered; when
  the signal is rejected the job is deleted again, the caller gets the error and the manager
  is as before. At the ceiling the request goes to the end of the queue and the caller is
  told the new queue length as its position. Over any sequence of submissions a registry
  with one entry per tab stays so and never grows past the ceiling, the queue grows by
  exactly the requests that were answered with a position, in submission order, and from
  the empty manager, with distinct tabs and every signal delivered, the first \<open>c\<close>
  submissions run and the others are queued in order.
\<close>

theorem admission_bounded_fifo:
  "(has t (activeScrapeJobs m) \<longrightarrow>
      handleStartScraping now send t p m =
        (ErrorResp ''Scraping already active in this tab'', m)) \<and>
   (\<not> has t (activeScrapeJobs m) \<and> length (activeScrapeJobs m) < maxConcurrentScrapes m \<longrightarrow>
      handleStartScraping now None t p m =
        (SuccessResp,
         addToScrapingHistory (newJob now t p)
           (m\<lparr>activeScrapeJobs := activeScrapeJobs m @ [(t, newJob now t p)]\<rparr>)) \<and>
      status (newJob now t p) = Running \<and>
      handleStartScraping now (Some msg) t p m = (ErrorResp msg, m)) \<and>
   (\<not> has t (activeScrapeJobs m) \<and> maxConcurrentScrapes m \<le> length (activeScrapeJobs m) \<longrightarrow>
      handleStartScraping now send t p m =
        (QueuedResp (Suc (length (scrapingQueue m))),
         m\<lparr>scrapingQueue := scrapingQueue m @
              [\<lparr>tabId_q = t, scrapingParams = p, timestamp_q = now\<rparr>]\<rparr>)) \<and>
   (distinct (map fst (activeScrapeJobs m)) \<longrightarrow>
      distinct (map fst (activeScrapeJobs (snd (submitAll subs m))))) \<and>
   (length (activeScrapeJobs m) \<le> maxConcurrentScrapes m \<longrightarrow>
      length (activeScrapeJobs (snd (submitAll subs m))) \<le> maxConcurrentScrapes m) \<and>
   scrapingQueue (snd (submitAll subs m)) =
     scrapingQueue m @ queuedRequests subs (fst (submitAll subs m)) \<and>
   (distinct (map tab_sub subs) \<and> (\<forall>x\<in>set subs. send_sub x = None) \<longrightarrow>
      map fst (activeScrapeJobs (snd (submitAll subs (newManager c)))) =
        map tab_sub (take c subs) \<and>
      map tabId_q (scrapingQueue (snd (submitAll subs (newManager c)))) =
        map tab_sub (drop c subs))"
proof (intro conjI impI)
  assume "has t (activeScrapeJobs m)"
  then show "handleStartScraping now send t p m =
      (ErrorResp ''Scraping already active in this tab'', m)"
    by (rule hs_rejected)
next
  assume h: "\<not> has t (activeScrapeJobs m) \<and> length (activeScrapeJobs m) < maxConcurrentScrapes m"
  then show "handleStartScraping now None t p m =
      (SuccessResp,
       addToScrapingHistory (newJob now t p)
         (m\<lparr>activeScrapeJobs := activeScrapeJobs m @ [(t, newJob now t p)]\<rparr>))"
    by (simp add: hs_started)
  show "status (newJob now t p) = Running" by (simp add: newJob_def)
  from h show "handleStartScraping now (Some msg) t p m = (ErrorResp msg, m)"
    by (simp add: hs_failed)
next
  assume "\<not> has t (activeScrapeJobs m) \<and> maxConcurrentScrapes m \<le> length (activeScrapeJobs m)"
  then show "handleStartScraping now send t p m =
      (QueuedResp (Suc (length (scrapingQueue m))),
       m\<lparr>scrapingQueue := scrapingQueue m @
            [\<lparr>tabId_q = t, scrapingParams = p, timestamp_q = now\<rparr>]\<rparr>)"
    by (simp add: hs_queued)
next
  assume "distinct (map fst (activeScrapeJobs m))"
  then show "distinct (map fst (activeScrapeJobs (snd (submitAll subs m))))"
    by (rule submitAll_distinct)
next
  assume "length (activeScrapeJobs m) \<le> maxConcurrentScrapes m"
  then show "length (activeScrapeJobs (snd (submitAll subs m))) \<le> maxConcurrentScrapes m"
    by (rule submitAll_bound)
next
  show "scrapingQueue (snd (submitAll subs m)) =
      scrapingQueue m @ queuedRequests subs (fst (submitAll subs m))"
    by (rule submitAll_queue)
next
  assume h: "distinct (map tab_sub subs) \<and> (\<forall>x\<in>set subs. send_sub x = None)"
  then show "map fst (activeScrapeJobs (snd (submitAll subs (newManager c)))) =
      map tab_sub (take c subs)"
    using submitAll_fresh[of subs c] by simp
  from h show "map tabId_q (scrapingQueue (snd (submitAll subs (newManager c)))) =
      map tab_sub (drop c subs)"
    using submitAll_fresh[of subs c] by simp
qed

theorem admission_bounded_fifo_witness:
  "has 1 (activeScrapeJobs exBusy) \<and>
   handleStartScraping 5 None 1 exParams exBusy =
     (ErrorResp ''Scraping already active in this tab'', exBusy) \<and>
   \<not> has 1 (activeScrapeJobs (newManager 2)) \<and>
   length (activeScrapeJobs (newManager 2)) < maxConcurrentScrapes (newManager 2) \<and>
   fst (handleStartScraping 0 None 1 exParams (newManager 2)) = SuccessResp \<and>
   handleStartScraping 0 (Some ''no receiver'') 1 exParams (newManager 2) =
     (ErrorResp ''no receiver'', newManager 2) \<and>
   \<not> has 4 (activeScrapeJobs exBusy) \<and>
   maxConcurrentScrapes exBusy \<le> length (activeScrapeJobs exBusy) \<and>
   fst (handleStartScraping 5 None 4 exParams exBusy) = QueuedResp 2 \<and>
   distinct (map tab_sub [exSub 0 1, exSub 1 2, exSub 2 3]) \<and>
   map send_sub [exSub 0 1, exSub 1 2, exSub 2 3] = [None, None, None] \<and>
   length (activeScrapeJobs exBusy) \<le> 2 \<and>
   distinct (map fst (activeScrapeJobs (newManager 2))) \<and>
   distinct (map fst (activeScrapeJobs exBusy)) \<and>
   map fst (activeScrapeJobs exBusy) = [1, 2] \<and>
   map tabId_q (scrapingQueue exBusy) = [3]"
proof -
  have a: "has 1 (activeScrapeJobs exBusy)" "\<not> has 4 (activeScrapeJobs exBusy)"
    "maxConcurrentScrapes exBusy \<le> length (activeScrapeJobs exBusy)"
    by (simp_all add: exBusy_fields has_def)
  have b: "\<not> has 1 (activeScrapeJobs (newManager 2))"
    "length (activeScrapeJobs (newManager 2)) < maxConcurrentScrapes (newManager 2)"
    "length (activeScrapeJobs (newManager 2)) \<le> maxConcurrentScrapes (newManager 2)"
    by (simp_all add: newManager_def has_def)
  have c: "distinct (map tab_sub [exSub 0 1, exSub 1 2, exSub 2 3])"
    "\<forall>x\<in>set [exSub 0 1, exSub 1 2, exSub 2 3]. send_sub x = None"
    by (simp_all add: exSub_def)
  note t1 = admission_bounded_fifo[of 1 exBusy 5 None exParams "''no receiver''" "[]" 0]
  note t2 = admission_bounded_fifo[of 1 "newManager 2" 0 None exParams "''no receiver''"
              "[exSub 0 1, exSub 1 2, exSub 2 3]" 2]
  note t3 = admission_bounded_fifo[of 4 exBusy 5 None exParams "''no receiver''" "[]" 0]
  have r1: "handleStartScraping 5 None 1 exParams exBusy =
      (ErrorResp ''Scraping already active in this tab'', exBusy)"
    using t1 a(1) by blast
  have r2: "fst (handleStartScraping 0 None 1 exParams (newManager 2)) = SuccessResp"
    "handleStartScraping 0 (Some ''no receiver'') 1 exParams (newManager 2) =
       (ErrorResp ''no receiver'', newManager 2)"
    using t2 b(1,2) by simp_all
  have r3: "fst (handleStartScraping 5 None 4 exParams exBusy) = QueuedResp 2"
    using t3 a(2,3) by (simp add: exBusy_fields)
  have "length (activeScrapeJobs (snd (submitAll [exSub 0 1, exSub 1 2, exSub 2 3] (newManager 2))))
      \<le> maxConcurrentScrapes (newManager 2)"
    using t2 b(3) by blast
  then have r4: "length (activeScrapeJobs exBusy) \<le> 2"
    by (simp only: exBusy_def[symmetric]) (simp add: newManager_def)
  have "map fst (activeScrapeJobs (snd (submitAll [exSub 0 1, exSub 1 2, exSub 2 3] (newManager 2)))) =
      map tab_sub (take 2 [exSub 0 1, exSub 1 2, exSub 2 3]) \<and>
    map tabId_q (scrapingQueue (snd (submitAll [exSub 0 1, exSub 1 2, exSub 2 3] (newManager 2)))) =
      map tab_sub (drop 2 [exSub 0 1, exSub 1 2, exSub 2 3])"
    using t2 c by blast
  then have r5: "map fst (activeScrapeJobs exBusy) = [1, 2]"
    "map tabId_q (scrapingQueue exBusy) = [3]"
    by (simp_all only: exBusy_def[symmetric]) (simp_all add: exSub_def)
  have c': "map send_sub [exSub 0 1, exSub 1 2, exSub 2 3] = [None, None, None]"
    by (simp add: exSub_def)
  have d0: "distinct (map fst (activeScrapeJobs (newManager 2)))"
    by (simp add: newManager_def)
  have "distinct (map fst (activeScrapeJobs (snd (submitAll [exSub 0 1, exSub 1 2, exSub 2 3]
      (newManager 2)))))"
    using t2 d0 by blast
  then have r6: "distinct (map fst (activeScrapeJobs exBusy))"
    by (simp only: exBusy_def[symmetric])
  show ?thesis using a b(1,2) c(1) c' d0 r1 r2 r3 r4 r5 r6 by simp
qed

text \<open>
  The claim as written fails where the start signal is rejected: the registry is below
  the ceiling, the tab has no running job, and after the submit no job is running.
\<close>

theorem admission_counterexample:
  "length (activeScrapeJobs (newManager 2)) < maxConcurrentScrapes (newManager 2) \<and>
   \<not> has 1 (activeScrapeJobs (newManager 2)) \<and>
   \<not> has 1 (activeScrapeJobs (snd (handleStartScraping 0
       (Some ''Could not establish connection. Receiving end does not exist.'') 1 exParams
       (newManager 2)))) \<and>
   activeScrapeJobs (snd (handleStartScraping 0
       (Some ''Could not establish connection. Receiving end does not exist.'') 1 exParams
       (newManager 2))) = []"
  by (simp add: newManager_def handleStartScraping_def startScrapeJob_def has_def Let_def)

subsection \<open>The watchdog\<close>

lemma staleLoop_frame [simp]:
  "scrapingQueue (staleLoop c al m) = scrapingQueue m"
  "maxConcurrentScrapes (staleLoop c al m) = maxConcurrentScrapes m"
  "scrapingIndex (staleLoop c al m) = scrapingIndex m"
  "scrapingResults (staleLoop c al m) = scrapingResults m"
  by (induction c al m rule: staleLoop.induct; simp add: Let_def updateScrapingHistory_def)+

lemma staleKeys_simps [simp]:
  "staleKeys c [] = {}"
  "staleKeys c ((t, job) # rest) = (if isStale c job then insert t (staleKeys c rest) else staleKeys c rest)"
  by (simp_all add: staleKeys_def)

lemma delete_filter: "AList.delete k al = filter (\<lambda>p. fst p \<noteq> k) al"
  by (induction al) auto

lemma staleLoop_active:
  "activeScrapeJobs (staleLoop c al m) =
     filter (\<lambda>p. fst p \<notin> staleKeys c al) (activeScrapeJobs m)"
proof (induction c al m rule: staleLoop.induct)
  case (1 c m)
  show ?case by simp
next
  case (2 c t job rest m)
  show ?case
  proof (cases "isStale c job")
    case True
    have "filter (\<lambda>p. fst p \<notin> staleKeys c rest) (filter (\<lambda>p. fst p \<noteq> t) (activeScrapeJobs m)) =
          filter (\<lambda>p. fst p \<notin> insert t (staleKeys c rest)) (activeScrapeJobs m)"
      by (simp add: conj_commute)
    then show ?thesis
      using True 2(1)[OF True refl]
      by (simp add: Let_def updateScrapingHistory_def delete_filter)
  next
    case False
    then show ?thesis using 2(2)[OF False] by simp
  qed
qed

lemma staleLoop_history:
  "scrapingHistory (staleLoop c al m) =
     foldl (\<lambda>h j. updateFirst (timeoutJob c j) h) (scrapingHistory m)
       (map snd (filter (\<lambda>p. isStale c (snd p)) al))"
  by (induction c al m rule: staleLoop.induct) (simp_all add: Let_def updateScrapingHistory_def)

lemma staleKeys_distinct:
  assumes "distinct (map fst al)" "p \<in> set al"
  shows "fst p \<in> staleKeys c al \<longleftrightarrow> isStale c (snd p)"
proof
  assume "fst p \<in> staleKeys c al"
  then obtain x where x: "x \<in> set al" "isStale c (snd x)" "fst x = fst p"
    by (auto simp: staleKeys_def)
  have "x = p" using assms x(1,3) by (metis eq_key_imp_eq_value prod.collapse)
  with x(2) show "isStale c (snd p)" by simp
next
  assume "isStale c (snd p)"
  with assms(2) show "fst p \<in> staleKeys c al" by (auto simp: staleKeys_def)
qed

lemma checkStaleJobs_active:
  assumes "distinct (map fst (activeScrapeJobs m))"
  shows "activeScrapeJobs (checkStaleJobs c m) =
     filter (\<lambda>p. \<not> isStale c (snd p)) (activeScrapeJobs m)"
  unfolding checkStaleJobs_def staleLoop_active
  by (rule filter_cong[OF refl]) (simp add: staleKeys_distinct[OF assms])

lemma checkStaleJobs_frame [simp]:
  "scrapingQueue (checkStaleJobs c m) = scrapingQueue m"
  "maxConcurrentScrapes (checkStaleJobs c m) = maxConcurrentScrapes m"
  "scrapingIndex (checkStaleJobs c m) = scrapingIndex m"
  "scrapingResults (checkStaleJobs c m) = scrapingResults m"
  by (simp_all add: checkStaleJobs_def)

lemma checkStaleJobs_distinct:
  "distinct (map fst (activeScrapeJobs m)) \<Longrightarrow> distinct (map fst (activeScrapeJobs (checkStaleJobs c m)))"
  by (simp add: checkStaleJobs_active distinct_map_filter)

lemma map_of_filter_distinct:
  "distinct (map fst al) \<Longrightarrow> map_of al k = Some v \<Longrightarrow> P (k, v) \<Longrightarrow> map_of (filter P al) k = Some v"
  by (induction al) (auto simp: rev_image_eqI)

lemma checkStaleJobs_keeps:
  "distinct (map fst (activeScrapeJobs m)) \<Longrightarrow> map_of (activeScrapeJobs m) t = Some job \<Longrightarrow>
   \<not> isStale c job \<Longrightarrow> map_of (activeScrapeJobs (checkStaleJobs c m)) t = Some job"
  by (simp add: checkStaleJobs_active map_of_filter_distinct)

lemma watchdogTicks_keeps:
  "distinct (map fst (activeScrapeJobs m)) \<Longrightarrow> map_of (activeScrapeJobs m) t = Some job \<Longrightarrow>
   lastUpdate job = None \<Longrightarrow> map_of (activeScrapeJobs (watchdogTicks cs m)) t = Some job"
proof (induction cs arbitrary: m)
  case Nil
  then show ?case by simp
next
  case (Cons c cs)
  have ns: "\<not> isStale c job" using Cons.prems(3) by (simp add: isStale_def)
  show ?case
    using Cons.IH[OF checkStaleJobs_distinct[OF Cons.prems(1)] checkStaleJobs_keeps[OF Cons.prems(1,2) ns] Cons.prems(3)]
    by simp
qed


lemma exWaiting_fields:
  "activeScrapeJobs exWaiting = [(1, (newJob 0 1 exParams)\<lparr>progress := 10, lastUpdate := Some 1000\<rparr>)]"
  "scrapingQueue exWaiting = [\<lparr>tabId_q = 2, scrapingParams = exParams, timestamp_q = 1\<rparr>]"
  "maxConcurrentScrapes exWaiting = 1"
  by (simp_all add: exWaiting_def exSub_def newManager_def handleStartScraping_def
        startScrapeJob_def addToScrapingHistory_def has_def Let_def handleProgressUpdate_def)

lemma exWaiting_tick:
  "activeScrapeJobs (checkStaleJobs (1000 + minutes 31) exWaiting) = []"
  by (simp add: checkStaleJobs_def exWaiting_fields isStale_def staleTime_def minutes_def
        newJob_def Let_def updateScrapingHistory_def)

text \<open>
  Claim C5 at the failing input. With ceiling 1, tab 1 running and tab 2 queued, the tick
  that times tab 1 out empties the registry and leaves the queue as it was: the slot is
  free, the request of tab 2 is still waiting and no job runs. A submission from tab 3
  that arrives afterwards is started at once, ahead of tab 2.
\<close>

theorem watchdog_does_not_drain_queue:
  "has 1 (activeScrapeJobs exWaiting) \<and>
   scrapingQueue exWaiting = [\<lparr>tabId_q = 2, scrapingParams = exParams, timestamp_q = 1\<rparr>] \<and>
   activeScrapeJobs (checkStaleJobs (1000 + minutes 31) exWaiting) = [] \<and>
   scrapingQueue (checkStaleJobs (1000 + minutes 31) exWaiting) =
     [\<lparr>tabId_q = 2, scrapingParams = exParams, timestamp_q = 1\<rparr>] \<and>
   length (activeScrapeJobs (checkStaleJobs (1000 + minutes 31) exWaiting)) <
     maxConcurrentScrapes (checkStaleJobs (1000 + minutes 31) exWaiting) \<and>
   fst (handleStartScraping (1000 + minutes 32) None 3 exParams
          (checkStaleJobs (1000 + minutes 31) exWaiting)) = SuccessResp \<and>
   map tabId_q (scrapingQueue (snd (handleStartScraping (1000 + minutes 32) None 3 exParams
          (checkStaleJobs (1000 + minutes 31) exWaiting)))) = [2]"
proof -
  let ?m = "checkStaleJobs (1000 + minutes 31) exWaiting"
  have nh: "\<not> has 3 (activeScrapeJobs ?m)" by (simp add: exWaiting_tick has_def)
  have lt: "length (activeScrapeJobs ?m) < maxConcurrentScrapes ?m"
    by (simp add: exWaiting_tick exWaiting_fields)
  show ?thesis
    using lt by (simp add: hs_started[OF nh lt] exWaiting_fields exWaiting_tick has_def
                   addToScrapingHistory_def)
qed

text \<open>
  Claim C7 at the failing input. A job started in tab 1 and never heard of again has no
  last-update time, so no tick finds it stale: after watchdog ticks at any times
  whatsoever it is still registered, and still running.
\<close>

theorem watchdog_never_ends_silent_job:
  "map_of (activeScrapeJobs
       (watchdogTicks cs (snd (handleStartScraping 0 None 1 exParams (newManager 2))))) 1 =
     Some (newJob 0 1 exParams) \<and>
   status (newJob 0 1 exParams) = Running \<and>
   lastUpdate (newJob 0 1 exParams) = None"
proof -
  let ?m = "snd (handleStartScraping 0 None 1 exParams (newManager 2))"
  have a: "activeScrapeJobs ?m = [(1, newJob 0 1 exParams)]"
    by (simp add: newManager_def handleStartScraping_def startScrapeJob_def has_def Let_def
          addToScrapingHistory_def)
  have d: "distinct (map fst (activeScrapeJobs ?m))" by (simp add: a)
  have l: "map_of (activeScrapeJobs ?m) 1 = Some (newJob 0 1 exParams)" by (simp add: a)
  have n: "lastUpdate (newJob 0 1 exParams) = None" by (simp add: newJob_def)
  show ?thesis using watchdogTicks_keeps[OF d l n] n by (simp add: newJob_def)
qed

subsection \<open>Queueing twice\<close>

lemma hs_queued_only:
  assumes "fst (handleStartScraping now send t p m) = QueuedResp n"
  shows "\<not> has t (activeScrapeJobs m) \<and> maxConcurrentScrapes m \<le> length (activeScrapeJobs m) \<and>
         n = Suc (length (scrapingQueue m))"
proof (rule hs_cases[where t=t and m=m and send=send])
  assume "has t (activeScrapeJobs m)"
  with assms show ?thesis by (simp add: hs_rejected)
next
  assume a: "\<not> has t (activeScrapeJobs m)" "maxConcurrentScrapes m \<le> length (activeScrapeJobs m)"
  with assms show ?thesis by (simp add: hs_queued)
next
  assume "\<not> has t (activeScrapeJobs m)" "length (activeScrapeJobs m) < maxConcurrentScrapes m" "send = None"
  with assms show ?thesis by (simp add: hs_started)
next
  fix msg assume "\<not> has t (activeScrapeJobs m)" "length (activeScrapeJobs m) < maxConcurrentScrapes m" "send = Some msg"
  with assms show ?thesis by (simp add: hs_failed)
qed

lemma hs_free_queue:
  "\<not> has t (activeScrapeJobs m) \<Longrightarrow> length (activeScrapeJobs m) < maxConcurrentScrapes m \<Longrightarrow>
   scrapingQueue (snd (handleStartScraping now send t p m)) = scrapingQueue m"
  by (cases send) (simp_all add: hs_started hs_failed addToScrapingHistory_def)

lemma filter_mem_length: "x \<in> f ` set xs \<Longrightarrow> 1 \<le> length (filter (\<lambda>q. f q = x) xs)"
  by (induction xs) auto

lemma exTimedOut_fields:
  "activeScrapeJobs exTimedOut = []"
  "scrapingQueue exTimedOut = [\<lparr>tabId_q = 2, scrapingParams = exParams, timestamp_q = 1\<rparr>]"
  "maxConcurrentScrapes exTimedOut = 1"
  by (simp_all add: exTimedOut_def newManager_def handleStartScraping_def startScrapeJob_def
        addToScrapingHistory_def has_def Let_def handleProgressUpdate_def checkStaleJobs_def
        isStale_def staleTime_def minutes_def newJob_def updateScrapingHistory_def)

lemma exFailedDrain_fields:
  "activeScrapeJobs exFailedDrain = []"
  "scrapingQueue exFailedDrain = [\<lparr>tabId_q = 3, scrapingParams = exParams, timestamp_q = 2\<rparr>]"
  "maxConcurrentScrapes exFailedDrain = 1"
  by (simp_all add: exFailedDrain_def exDone_def newManager_def handleStartScraping_def
        startScrapeJob_def addToScrapingHistory_def has_def Let_def handleProgressUpdate_def
        processScrapingQueue_def saveScrapingResults_def updateScrapingIndex_def newJob_def)

text \<open>
  Claim C10. The check for a running job looks at the registry alone. Take a tab that has a
  request in the queue and no running job. Its next submit is never answered that scraping
  is already active. While the ceiling is reached the submit is answered with the next
  queue position and its request is appended, so the tab then holds at least two queue
  positions; a submit right after a queued one is always in this case. When a slot is free
  the submit is not queued: the job is started (or, the start signal rejected, the error is
  answered and nothing changes), and the queue is left as it was, the earlier request of
  the tab still in it. From the empty manager with ceiling 1, tab 2 submitting twice behind
  tab 1 holds positions 1 and 2.
\<close>

theorem queued_context_queues_again:
  "(fst (handleStartScraping now1 send1 t p1 m) = QueuedResp n \<longrightarrow>
      handleStartScraping now2 send2 t p2 (snd (handleStartScraping now1 send1 t p1 m)) =
        (QueuedResp (Suc n),
         m\<lparr>scrapingQueue := scrapingQueue m @
              [\<lparr>tabId_q = t, scrapingParams = p1, timestamp_q = now1\<rparr>,
               \<lparr>tabId_q = t, scrapingParams = p2, timestamp_q = now2\<rparr>]\<rparr>)) \<and>
   (t \<in> tabId_q ` set (scrapingQueue m) \<and> \<not> has t (activeScrapeJobs m) \<and>
    maxConcurrentScrapes m \<le> length (activeScrapeJobs m) \<longrightarrow>
      handleStartScraping now2 send2 t p2 m =
        (QueuedResp (Suc (length (scrapingQueue m))),
         m\<lparr>scrapingQueue := scrapingQueue m @
              [\<lparr>tabId_q = t, scrapingParams = p2, timestamp_q = now2\<rparr>]\<rparr>) \<and>
      length (filter (\<lambda>q. tabId_q q = t) (scrapingQueue (snd (handleStartScraping now2 send2 t p2 m)))) =
        Suc (length (filter (\<lambda>q. tabId_q q = t) (scrapingQueue m))) \<and>
      2 \<le> length (filter (\<lambda>q. tabId_q q = t) (scrapingQueue (snd (handleStartScraping now2 send2 t p2 m))))) \<and>
   (t \<in> tabId_q ` set (scrapingQueue m) \<and> \<not> has t (activeScrapeJobs m) \<and>
    length (activeScrapeJobs m) < maxConcurrentScrapes m \<longrightarrow>
      handleStartScraping now2 None t p2 m =
        (SuccessResp,
         addToScrapingHistory (newJob now2 t p2)
           (m\<lparr>activeScrapeJobs := activeScrapeJobs m @ [(t, newJob now2 t p2)]\<rparr>)) \<and>
      handleStartScraping now2 (Some msg) t p2 m = (ErrorResp msg, m) \<and>
      scrapingQueue (snd (handleStartScraping now2 send2 t p2 m)) = scrapingQueue m \<and>
      t \<in> tabId_q ` set (scrapingQueue (snd (handleStartScraping now2 send2 t p2 m)))) \<and>
   (\<not> has t (activeScrapeJobs m) \<and> send2 \<noteq> Some ''Scraping already active in this tab'' \<longrightarrow>
      fst (handleStartScraping now2 send2 t p2 m) \<noteq> ErrorResp ''Scraping already active in this tab'') \<and>
   fst (submitAll [exSub 0 1, exSub 1 2, exSub 2 2] (newManager 1)) =
     [SuccessResp, QueuedResp 1, QueuedResp 2] \<and>
   map tabId_q (scrapingQueue (snd (submitAll [exSub 0 1, exSub 1 2, exSub 2 2] (newManager 1)))) = [2, 2]"
proof -
  have c1: "handleStartScraping now2 send2 t p2 (snd (handleStartScraping now1 send1 t p1 m)) =
        (QueuedResp (Suc n),
         m\<lparr>scrapingQueue := scrapingQueue m @
              [\<lparr>tabId_q = t, scrapingParams = p1, timestamp_q = now1\<rparr>,
               \<lparr>tabId_q = t, scrapingParams = p2, timestamp_q = now2\<rparr>]\<rparr>)"
    if q: "fst (handleStartScraping now1 send1 t p1 m) = QueuedResp n"
  proof -
    note h = hs_queued_only[OF q]
    let ?m1 = "m\<lparr>scrapingQueue := scrapingQueue m @
             [\<lparr>tabId_q = t, scrapingParams = p1, timestamp_q = now1\<rparr>]\<rparr>"
    have s1: "snd (handleStartScraping now1 send1 t p1 m) = ?m1"
      using h by (simp add: hs_queued)
    have "\<not> has t (activeScrapeJobs ?m1)" "maxConcurrentScrapes ?m1 \<le> length (activeScrapeJobs ?m1)"
      using h by simp_all
    from hs_queued[OF this] show ?thesis using h by (simp add: s1)
  qed
  have c2: "handleStartScraping now2 send2 t p2 m =
        (QueuedResp (Suc (length (scrapingQueue m))),
         m\<lparr>scrapingQueue := scrapingQueue m @
              [\<lparr>tabId_q = t, scrapingParams = p2, timestamp_q = now2\<rparr>]\<rparr>) \<and>
      length (filter (\<lambda>q. tabId_q q = t) (scrapingQueue (snd (handleStartScraping now2 send2 t p2 m)))) =
        Suc (length (filter (\<lambda>q. tabId_q q = t) (scrapingQueue m))) \<and>
      2 \<le> length (filter (\<lambda>q. tabId_q q = t) (scrapingQueue (snd (handleStartScraping now2 send2 t p2 m))))"
    if a: "t \<in> tabId_q ` set (scrapingQueue m)" "\<not> has t (activeScrapeJobs m)"
      "maxConcurrentScrapes m \<le> length (activeScrapeJobs m)"
  proof -
    note e = hs_queued[OF a(2) a(3), of now2 send2 p2]
    have one: "1 \<le> length (filter (\<lambda>q. tabId_q q = t) (scrapingQueue m))"
      using a(1) by (rule filter_mem_length)
    have cnt: "length (filter (\<lambda>q. tabId_q q = t) (scrapingQueue (snd (handleStartScraping now2 send2 t p2 m)))) =
        Suc (length (filter (\<lambda>q. tabId_q q = t) (scrapingQueue m)))"
      by (simp add: e)
    have two: "2 \<le> length (filter (\<lambda>q. tabId_q q = t) (scrapingQueue (snd (handleStartScraping now2 send2 t p2 m))))"
      unfolding cnt using one by simp
    show ?thesis using e cnt two by blast
  qed
  have c3: "handleStartScraping now2 None t p2 m =
        (SuccessResp,
         addToScrapingHistory (newJob now2 t p2)
           (m\<lparr>activeScrapeJobs := activeScrapeJobs m @ [(t, newJob now2 t p2)]\<rparr>)) \<and>
      handleStartScraping now2 (Some msg) t p2 m = (ErrorResp msg, m) \<and>
      scrapingQueue (snd (handleStartScraping now2 send2 t p2 m)) = scrapingQueue m \<and>
      t \<in> tabId_q ` set (scrapingQueue (snd (handleStartScraping now2 send2 t p2 m)))"
    if a: "t \<in> tabId_q ` set (scrapingQueue m)" "\<not> has t (activeScrapeJobs m)"
      "length (activeScrapeJobs m) < maxConcurrentScrapes m"
  proof -
    note q = hs_free_queue[OF a(2) a(3), of now2 send2 p2]
    have "t \<in> tabId_q ` set (scrapingQueue (snd (handleStartScraping now2 send2 t p2 m)))"
      unfolding q by (rule a(1))
    with hs_started[OF a(2) a(3), of now2 p2] hs_failed[OF a(2) a(3), of now2 msg p2] q
    show ?thesis by blast
  qed
  have c4: "fst (handleStartScraping now2 send2 t p2 m) \<noteq> ErrorResp ''Scraping already active in this tab''"
    if nh: "\<not> has t (activeScrapeJobs m)" and s: "send2 \<noteq> Some ''Scraping already active in this tab''"
  proof (rule hs_cases[where t=t and m=m and send=send2])
    assume "has t (activeScrapeJobs m)"
    with nh show ?thesis by simp
  next
    assume "\<not> has t (activeScrapeJobs m)" "maxConcurrentScrapes m \<le> length (activeScrapeJobs m)"
    then show ?thesis by (simp add: hs_queued)
  next
    assume "\<not> has t (activeScrapeJobs m)" "length (activeScrapeJobs m) < maxConcurrentScrapes m" "send2 = None"
    then show ?thesis by (simp add: hs_started)
  next
    fix e assume "\<not> has t (activeScrapeJobs m)" "length (activeScrapeJobs m) < maxConcurrentScrapes m" "send2 = Some e"
    with s show ?thesis by (simp add: hs_failed)
  qed
  have c5: "fst (submitAll [exSub 0 1, exSub 1 2, exSub 2 2] (newManager 1)) =
     [SuccessResp, QueuedResp 1, QueuedResp 2]"
    by (simp add: exSub_def newManager_def handleStartScraping_def
        startScrapeJob_def addToScrapingHistory_def has_def Let_def)
  have c6: "map tabId_q (scrapingQueue (snd (submitAll [exSub 0 1, exSub 1 2, exSub 2 2] (newManager 1)))) = [2, 2]"
    by (simp add: exSub_def newManager_def handleStartScraping_def
        startScrapeJob_def addToScrapingHistory_def has_def Let_def)
  show ?thesis
    apply (intro conjI impI)
    subgoal by (rule c1)
    subgoal using c2 by blast
    subgoal using c2 by blast
    subgoal using c2 by blast
    subgoal using c3 by blast
    subgoal using c3 by blast
    subgoal using c3 by blast
    subgoal using c3 by blast
    subgoal using c4 by blast
    subgoal by (rule c5)
    subgoal by (rule c6)
    done
qed

theorem queued_context_queues_again_witness:
  "fst (handleStartScraping 5 None 2 exParams exWaiting) = QueuedResp 2 \<and>
   fst (handleStartScraping 6 None 2 exParams (snd (handleStartScraping 5 None 2 exParams exWaiting))) =
     QueuedResp 3 \<and>
   map tabId_q (scrapingQueue (snd (handleStartScraping 6 None 2 exParams
       (snd (handleStartScraping 5 None 2 exParams exWaiting))))) = [2, 2, 2] \<and>
   2 \<in> tabId_q ` set (scrapingQueue exWaiting) \<and>
   \<not> has 2 (activeScrapeJobs exWaiting) \<and>
   maxConcurrentScrapes exWaiting \<le> length (activeScrapeJobs exWaiting) \<and>
   map tabId_q (scrapingQueue (snd (handleStartScraping 5 None 2 exParams exWaiting))) = [2, 2] \<and>
   length (filter (\<lambda>q. tabId_q q = 2)
      (scrapingQueue (snd (handleStartScraping 5 None 2 exParams exWaiting)))) = 2 \<and>
   fst (handleStartScraping 5 None 2 exParams exWaiting) \<noteq>
     ErrorResp ''Scraping already active in this tab'' \<and>
   2 \<in> tabId_q ` set (scrapingQueue exTimedOut) \<and>
   \<not> has 2 (activeScrapeJobs exTimedOut) \<and>
   length (activeScrapeJobs exTimedOut) < maxConcurrentScrapes exTimedOut \<and>
   fst (handleStartScraping 5 None 2 exParams exTimedOut) = SuccessResp \<and>
   map fst (activeScrapeJobs (snd (handleStartScraping 5 None 2 exParams exTimedOut))) = [2] \<and>
   handleStartScraping 5 (Some ''No tab'') 2 exParams exTimedOut = (ErrorResp ''No tab'', exTimedOut) \<and>
   map tabId_q (scrapingQueue (snd (handleStartScraping 5 None 2 exParams exTimedOut))) = [2]"
proof -
  have a: "2 \<in> tabId_q ` set (scrapingQueue exWaiting)"
    "\<not> has 2 (activeScrapeJobs exWaiting)"
    "maxConcurrentScrapes exWaiting \<le> length (activeScrapeJobs exWaiting)"
    by (simp_all add: exWaiting_fields has_def)
  have b: "2 \<in> tabId_q ` set (scrapingQueue exTimedOut)"
    "\<not> has 2 (activeScrapeJobs exTimedOut)"
    "length (activeScrapeJobs exTimedOut) < maxConcurrentScrapes exTimedOut"
    by (simp_all add: exTimedOut_fields has_def)
  have s: "(None :: string option) \<noteq> Some ''Scraping already active in this tab''" by simp
  note t = queued_context_queues_again[of 5 None 2 exParams exWaiting 2 6 None exParams "''No tab''"]
  note t' = queued_context_queues_again[of 0 None 2 exParams exWaiting 0 5 None exParams "''No tab''"]
  note u = queued_context_queues_again[of 0 None 2 exParams exTimedOut 0 5 None exParams "''No tab''"]
  have r0: "handleStartScraping 5 None 2 exParams exWaiting =
        (QueuedResp (Suc (length (scrapingQueue exWaiting))),
         exWaiting\<lparr>scrapingQueue := scrapingQueue exWaiting @
              [\<lparr>tabId_q = 2, scrapingParams = exParams, timestamp_q = 5\<rparr>]\<rparr>)"
    using t' a by blast
  have q: "fst (handleStartScraping 5 None 2 exParams exWaiting) = QueuedResp 2"
    unfolding r0 by (simp add: exWaiting_fields)
  have r1: "handleStartScraping 6 None 2 exParams (snd (handleStartScraping 5 None 2 exParams exWaiting)) =
        (QueuedResp 3,
         exWaiting\<lparr>scrapingQueue := scrapingQueue exWaiting @
              [\<lparr>tabId_q = 2, scrapingParams = exParams, timestamp_q = 5\<rparr>,
               \<lparr>tabId_q = 2, scrapingParams = exParams, timestamp_q = 6\<rparr>]\<rparr>)"
    using t q by simp
  have r2: "length (filter (\<lambda>q. tabId_q q = 2) (scrapingQueue (snd (handleStartScraping 5 None 2 exParams exWaiting)))) =
        Suc (length (filter (\<lambda>q. tabId_q q = 2) (scrapingQueue exWaiting)))"
    using t' a by blast
  have r3: "fst (handleStartScraping 5 None 2 exParams exWaiting) \<noteq>
      ErrorResp ''Scraping already active in this tab''"
    using t' a(2) s by blast
  have u1: "handleStartScraping 5 None 2 exParams exTimedOut =
        (SuccessResp,
         addToScrapingHistory (newJob 5 2 exParams)
           (exTimedOut\<lparr>activeScrapeJobs := activeScrapeJobs exTimedOut @ [(2, newJob 5 2 exParams)]\<rparr>))"
    using u b by blast
  have u2: "handleStartScraping 5 (Some ''No tab'') 2 exParams exTimedOut = (ErrorResp ''No tab'', exTimedOut)"
    using u b by blast
  have u3: "scrapingQueue (snd (handleStartScraping 5 None 2 exParams exTimedOut)) = scrapingQueue exTimedOut"
    using u b by blast
  have w1: "map tabId_q (scrapingQueue (snd (handleStartScraping 6 None 2 exParams
       (snd (handleStartScraping 5 None 2 exParams exWaiting))))) = [2, 2, 2]"
    unfolding r1 by (simp add: exWaiting_fields)
  have w2: "fst (handleStartScraping 6 None 2 exParams (snd (handleStartScraping 5 None 2 exParams exWaiting))) =
     QueuedResp 3"
    unfolding r1 by simp
  have w3: "map tabId_q (scrapingQueue (snd (handleStartScraping 5 None 2 exParams exWaiting))) = [2, 2]"
    unfolding r0 by (simp add: exWaiting_fields)
  have w4: "length (filter (\<lambda>q. tabId_q q = 2)
      (scrapingQueue (snd (handleStartScraping 5 None 2 exParams exWaiting)))) = 2"
    unfolding r2 by (simp add: exWaiting_fields)
  have w5: "fst (handleStartScraping 5 None 2 exParams exTimedOut) = SuccessResp"
    unfolding u1 by simp
  have w6: "map fst (activeScrapeJobs (snd (handleStartScraping 5 None 2 exParams exTimedOut))) = [2]"
    unfolding u1 by (simp add: addToScrapingHistory_def exTimedOut_fields)
  have w7: "map tabId_q (scrapingQueue (snd (handleStartScraping 5 None 2 exParams exTimedOut))) = [2]"
    unfolding u3 by (simp add: exTimedOut_fields)
  show ?thesis
    by (intro conjI) (fact q w2 w1 a w3 w4 r3 b w5 w6 u2 w7)+
qed

text \<open>
  Claim C10 as it stands, refuted where a slot is free. After the watchdog has timed out
  tab 1, tab 2 has its request in the queue and no running job; its second submit is
  answered success, the job is started and the queue holds one request of tab 2 as before,
  not two. The same happens to tab 3 after tab 1 has completed and the start signal to the
  queue's head, tab 2, was rejected.
\<close>

theorem queued_context_started_counterexample:
  "map tabId_q (scrapingQueue exTimedOut) = [2] \<and>
   activeScrapeJobs exTimedOut = [] \<and>
   fst (handleStartScraping (minutes 40) None 2 exParams exTimedOut) = SuccessResp \<and>
   map fst (activeScrapeJobs (snd (handleStartScraping (minutes 40) None 2 exParams exTimedOut))) = [2] \<and>
   map tabId_q (scrapingQueue (snd (handleStartScraping (minutes 40) None 2 exParams exTimedOut))) = [2] \<and>
   map tabId_q (scrapingQueue exFailedDrain) = [3] \<and>
   activeScrapeJobs exFailedDrain = [] \<and>
   fst (handleStartScraping 2000 None 3 exParams exFailedDrain) = SuccessResp \<and>
   map fst (activeScrapeJobs (snd (handleStartScraping 2000 None 3 exParams exFailedDrain))) = [3] \<and>
   map tabId_q (scrapingQueue (snd (handleStartScraping 2000 None 3 exParams exFailedDrain))) = [3]"
proof -
  have a: "\<not> has 2 (activeScrapeJobs exTimedOut)"
    "length (activeScrapeJobs exTimedOut) < maxConcurrentScrapes exTimedOut"
    by (simp_all add: exTimedOut_fields has_def)
  have b: "\<not> has 3 (activeScrapeJobs exFailedDrain)"
    "length (activeScrapeJobs exFailedDrain) < maxConcurrentScrapes exFailedDrain"
    by (simp_all add: exFailedDrain_fields has_def)
  show ?thesis
    by (simp add: hs_started[OF a] hs_started[OF b] exTimedOut_fields exFailedDrain_fields
          addToScrapingHistory_def)
qed

subsection \<open>What the watchdog does to a stale job\<close>

lemma updateFirst_ids [simp]: "map id_hist (updateFirst j h) = map id_hist h"
  by (induction h) auto

lemma updateFirst_hit:
  "id_job j \<in> id_hist ` set h \<Longrightarrow> \<exists>e\<in>set (updateFirst j h). recorded j e"
  by (induction h) (auto simp: recorded_def)

lemma updateFirst_other:
  "id_job j' \<noteq> id_hist e \<Longrightarrow> e \<in> set h \<Longrightarrow> e \<in> set (updateFirst j' h)"
  by (induction h) auto

lemma updateFirst_same:
  "recorded j e \<Longrightarrow> e \<in> set h \<Longrightarrow> \<exists>e'\<in>set (updateFirst j h). recorded j e'"
  by (rule updateFirst_hit) (auto simp: recorded_def intro: rev_image_eqI)

lemma timeoutJob_id [simp]: "id_job (timeoutJob c j) = id_job j"
  by (simp add: timeoutJob_def)

lemma fold_keeps_recorded:
  "\<exists>e\<in>set h. recorded (timeoutJob c job) e \<Longrightarrow>
   \<forall>j'\<in>set js. id_job j' = id_job job \<longrightarrow> j' = job \<Longrightarrow>
   \<exists>e\<in>set (foldl (\<lambda>h j. updateFirst (timeoutJob c j) h) h js). recorded (timeoutJob c job) e"
proof (induction js arbitrary: h)
  case Nil
  then show ?case by simp
next
  case (Cons j' js)
  from Cons.prems(1) obtain e where e: "e \<in> set h" "recorded (timeoutJob c job) e" by blast
  have "\<exists>e\<in>set (updateFirst (timeoutJob c j') h). recorded (timeoutJob c job) e"
  proof (cases "id_job j' = id_job job")
    case True
    then have "j' = job" using Cons.prems(2) by simp
    then show ?thesis using updateFirst_same[OF e(2,1)] by simp
  next
    case False
    then have "id_job (timeoutJob c j') \<noteq> id_hist e" using e(2) by (simp add: recorded_def)
    from updateFirst_other[OF this e(1)] e(2) show ?thesis by blast
  qed
  moreover have "\<forall>j'\<in>set js. id_job j' = id_job job \<longrightarrow> j' = job" using Cons.prems(2) by simp
  ultimately show ?case using Cons.IH by simp
qed

lemma fold_records:
  "id_job job \<in> id_hist ` set h \<Longrightarrow> job \<in> set js \<Longrightarrow>
   \<forall>j'\<in>set js. id_job j' = id_job job \<longrightarrow> j' = job \<Longrightarrow>
   \<exists>e\<in>set (foldl (\<lambda>h j. updateFirst (timeoutJob c j) h) h js). recorded (timeoutJob c job) e"
proof (induction js arbitrary: h)
  case Nil
  then show ?case by simp
next
  case (Cons j' js)
  have u: "\<forall>j'\<in>set js. id_job j' = id_job job \<longrightarrow> j' = job" using Cons.prems(3) by simp
  show ?case
  proof (cases "j' = job")
    case True
    have "\<exists>e\<in>set (updateFirst (timeoutJob c job) h). recorded (timeoutJob c job) e"
      using updateFirst_hit[of "timeoutJob c job" h] Cons.prems(1) by simp
    from fold_keeps_recorded[OF this u] show ?thesis using True by simp
  next
    case False
    then have "job \<in> set js" using Cons.prems(2) by simp
    moreover have "id_job job \<in> id_hist ` set (updateFirst (timeoutJob c j') h)"
      using Cons.prems(1) by (metis updateFirst_ids set_map)
    ultimately show ?thesis using Cons.IH u by simp
  qed
qed

lemma fold_ids [simp]:
  "map id_hist (foldl (\<lambda>h j. updateFirst (timeoutJob c j) h) h js) = map id_hist h"
  by (induction js arbitrary: h) simp_all

lemma checkStaleJobs_history:
  "scrapingHistory (checkStaleJobs c m) =
     foldl (\<lambda>h j. updateFirst (timeoutJob c j) h) (scrapingHistory m)
       (map snd (filter (\<lambda>p. isStale c (snd p)) (activeScrapeJobs m)))"
  by (simp add: checkStaleJobs_def staleLoop_history)

lemma map_of_filter_drop:
  assumes "\<not> P (k, v)" "distinct (map fst al)" "map_of al k = Some v"
  shows "map_of (filter P al) k = None"
proof (rule ccontr)
  assume "map_of (filter P al) k \<noteq> None"
  then obtain v' where "map_of (filter P al) k = Some v'" by auto
  then have "(k, v') \<in> set (filter P al)" by (rule map_of_SomeD)
  then have i: "(k, v') \<in> set al" and p: "P (k, v')" by auto
  have "(k, v) \<in> set al" using assms(3) by (rule map_of_SomeD)
  with i assms(2) have "v' = v" by (metis eq_key_imp_eq_value)
  with p assms(1) show False by simp
qed

text \<open>
  Claim C6, as amended. Take a registry with one entry per tab and a registered job whose
  last update was at \<open>u\<close>. A tick at \<open>now\<close> with \<open>now - u\<close> above the 30 minutes
  removes the job from the registry, which gets shorter; the job it hands to the history
  update has status timeout, the tick's time as end time and the inactivity message added
  to its errors. If the history holds an entry with the job's id (and no other registered
  job shares that id), an entry with that id then records status timeout, the end time and
  the number of extracted records; if the history holds no such entry, it holds none
  afterwards. Results, index and queue are never written. With \<open>now - u\<close> at most 30
  minutes the job stays registered, unchanged.
\<close>

theorem watchdog_times_out_stale_jobs:
  assumes d: "distinct (map fst (activeScrapeJobs m))"
    and l: "map_of (activeScrapeJobs m) t = Some job"
    and u: "lastUpdate job = Some u"
  shows
   "(staleTime < now - u \<longrightarrow>
       \<not> has t (activeScrapeJobs (checkStaleJobs now m)) \<and>
       length (activeScrapeJobs (checkStaleJobs now m)) < length (activeScrapeJobs m) \<and>
       status (timeoutJob now job) = Timeout \<and>
       endTime (timeoutJob now job) = Some now \<and>
       errors (timeoutJob now job) =
         errors job @ [\<lparr>timestamp_err = now, message = ''Job timed out due to inactivity''\<rparr>]) \<and>
    (staleTime < now - u \<and> id_job job \<in> id_hist ` set (scrapingHistory m) \<and>
     (\<forall>p\<in>set (activeScrapeJobs m). id_job (snd p) = id_job job \<longrightarrow> snd p = job) \<longrightarrow>
       (\<exists>e\<in>set (scrapingHistory (checkStaleJobs now m)).
          id_hist e = id_job job \<and> status_hist e = Timeout \<and> endTime_hist e = Some now \<and>
          extractedCount e = Some (length (extractedJobs job)))) \<and>
    (id_job job \<notin> id_hist ` set (scrapingHistory m) \<longrightarrow>
       id_job job \<notin> id_hist ` set (scrapingHistory (checkStaleJobs now m))) \<and>
    scrapingResults (checkStaleJobs now m) = scrapingResults m \<and>
    scrapingIndex (checkStaleJobs now m) = scrapingIndex m \<and>
    scrapingQueue (checkStaleJobs now m) = scrapingQueue m \<and>
    (now - u \<le> staleTime \<longrightarrow>
       map_of (activeScrapeJobs (checkStaleJobs now m)) t = Some job)"
proof (intro conjI impI)
  assume s: "staleTime < now - u"
  then have st: "isStale now job" using u by (simp add: isStale_def)
  have "map_of (activeScrapeJobs (checkStaleJobs now m)) t = None"
    using st d l by (simp add: checkStaleJobs_active map_of_filter_drop)
  then show "\<not> has t (activeScrapeJobs (checkStaleJobs now m))" by (simp add: has_def)
  have "(t, job) \<in> set (activeScrapeJobs m)" using l by (rule map_of_SomeD)
  then show "length (activeScrapeJobs (checkStaleJobs now m)) < length (activeScrapeJobs m)"
    using st by (simp add: checkStaleJobs_active[OF d]) (rule length_filter_less, auto)
  show "status (timeoutJob now job) = Timeout" "endTime (timeoutJob now job) = Some now"
    "errors (timeoutJob now job) =
         errors job @ [\<lparr>timestamp_err = now, message = ''Job timed out due to inactivity''\<rparr>]"
    by (simp_all add: timeoutJob_def)
next
  assume a: "staleTime < now - u \<and> id_job job \<in> id_hist ` set (scrapingHistory m) \<and>
     (\<forall>p\<in>set (activeScrapeJobs m). id_job (snd p) = id_job job \<longrightarrow> snd p = job)"
  then have st: "isStale now job" using u by (simp add: isStale_def)
  have m: "(t, job) \<in> set (activeScrapeJobs m)" using l by (rule map_of_SomeD)
  let ?js = "map snd (filter (\<lambda>p. isStale now (snd p)) (activeScrapeJobs m))"
  have "job \<in> set ?js" using m st by force
  moreover have "\<forall>j'\<in>set ?js. id_job j' = id_job job \<longrightarrow> j' = job" using a by auto
  ultimately have "\<exists>e\<in>set (scrapingHistory (checkStaleJobs now m)). recorded (timeoutJob now job) e"
    using a fold_records[of job "scrapingHistory m" ?js now] by (simp add: checkStaleJobs_history)
  then show "\<exists>e\<in>set (scrapingHistory (checkStaleJobs now m)).
          id_hist e = id_job job \<and> status_hist e = Timeout \<and> endTime_hist e = Some now \<and>
          extractedCount e = Some (length (extractedJobs job))"
    by (auto simp: recorded_def timeoutJob_def)
next
  assume "id_job job \<notin> id_hist ` set (scrapingHistory m)"
  moreover have "id_hist ` set (scrapingHistory (checkStaleJobs now m)) = id_hist ` set (scrapingHistory m)"
    by (metis checkStaleJobs_history fold_ids set_map)
  ultimately show "id_job job \<notin> id_hist ` set (scrapingHistory (checkStaleJobs now m))" by simp
next
  show "scrapingResults (checkStaleJobs now m) = scrapingResults m"
    "scrapingIndex (checkStaleJobs now m) = scrapingIndex m"
    "scrapingQueue (checkStaleJobs now m) = scrapingQueue m"
    by simp_all
next
  assume "now - u \<le> staleTime"
  then have "\<not> isStale now job" using u by (simp add: isStale_def)
  from checkStaleJobs_keeps[OF d l this]
  show "map_of (activeScrapeJobs (checkStaleJobs now m)) t = Some job" .
qed

lemma exWaiting_history:
  "scrapingHistory exWaiting =
     [\<lparr>id_hist = JobId 0 1, params_hist = exParams, startTime_hist = 0, status_hist = Running,
       endTime_hist = None, extractedCount = None\<rparr>]"
  by (simp add: exWaiting_def exSub_def newManager_def handleStartScraping_def
        startScrapeJob_def addToScrapingHistory_def has_def Let_def handleProgressUpdate_def
        newJob_def)

theorem watchdog_times_out_stale_jobs_witness:
  "distinct (map fst (activeScrapeJobs exWaiting)) \<and>
   map_of (activeScrapeJobs exWaiting) 1 =
     Some ((newJob 0 1 exParams)\<lparr>progress := 10, lastUpdate := Some 1000\<rparr>) \<and>
   staleTime < (1000 + minutes 31) - 1000 \<and>
   \<not> has 1 (activeScrapeJobs (checkStaleJobs (1000 + minutes 31) exWaiting)) \<and>
   JobId 0 1 \<in> id_hist ` set (scrapingHistory exWaiting) \<and>
   (\<exists>e\<in>set (scrapingHistory (checkStaleJobs (1000 + minutes 31) exWaiting)).
      id_hist e = JobId 0 1 \<and> status_hist e = Timeout \<and>
      endTime_hist e = Some (1000 + minutes 31) \<and> extractedCount e = Some 0) \<and>
   (1000 + minutes 29) - 1000 \<le> staleTime \<and>
   map_of (activeScrapeJobs (checkStaleJobs (1000 + minutes 29) exWaiting)) 1 =
     Some ((newJob 0 1 exParams)\<lparr>progress := 10, lastUpdate := Some 1000\<rparr>) \<and>
   distinct (map fst (activeScrapeJobs exForgotten)) \<and>
   map_of (activeScrapeJobs exForgotten) 1 =
     Some ((newJob 0 1 exParams)\<lparr>progress := 10, lastUpdate := Some 1000\<rparr>) \<and>
   JobId 0 1 \<notin> id_hist ` set (scrapingHistory exForgotten) \<and>
   JobId 0 1 \<notin> id_hist ` set (scrapingHistory (checkStaleJobs (1000 + minutes 31) exForgotten))"
proof -
  let ?job = "(newJob 0 1 exParams)\<lparr>progress := 10, lastUpdate := Some 1000\<rparr>"
  have d: "distinct (map fst (activeScrapeJobs exWaiting))"
    and l: "map_of (activeScrapeJobs exWaiting) 1 = Some ?job"
    and u: "lastUpdate ?job = Some 1000"
    by (simp_all add: exWaiting_fields)
  have s: "staleTime < (1000 + minutes 31) - 1000" "(1000 + minutes 29) - 1000 \<le> staleTime"
    by (simp_all add: staleTime_def minutes_def)
  have h: "id_job ?job \<in> id_hist ` set (scrapingHistory exWaiting)"
    and q: "\<forall>p\<in>set (activeScrapeJobs exWaiting). id_job (snd p) = id_job ?job \<longrightarrow> snd p = ?job"
    by (simp_all add: exWaiting_history exWaiting_fields newJob_def)
  note t31 = watchdog_times_out_stale_jobs[OF d l u, of "1000 + minutes 31"]
  note t29 = watchdog_times_out_stale_jobs[OF d l u, of "1000 + minutes 29"]
  have r1: "\<not> has 1 (activeScrapeJobs (checkStaleJobs (1000 + minutes 31) exWaiting))"
    using t31 s(1) by blast
  have r2: "\<exists>e\<in>set (scrapingHistory (checkStaleJobs (1000 + minutes 31) exWaiting)).
      id_hist e = id_job ?job \<and> status_hist e = Timeout \<and>
      endTime_hist e = Some (1000 + minutes 31) \<and>
      extractedCount e = Some (length (extractedJobs ?job))"
    using t31 s(1) h q by blast
  have r3: "map_of (activeScrapeJobs (checkStaleJobs (1000 + minutes 29) exWaiting)) 1 = Some ?job"
    using t29 s(2) by blast
  have i: "id_job ?job = JobId 0 1" "length (extractedJobs ?job) = 0"
    by (simp_all add: newJob_def)
  have fa: "activeScrapeJobs exForgotten = [(1, ?job)]" and fh: "scrapingHistory exForgotten = []"
    by (simp_all add: exForgotten_def deleteScrapedData_all_def handleProgressUpdate_def
          handleStartScraping_def startScrapeJob_def addToScrapingHistory_def newManager_def
          has_def Let_def)
  have fd: "distinct (map fst (activeScrapeJobs exForgotten))"
    and fl: "map_of (activeScrapeJobs exForgotten) 1 = Some ?job"
    and fn: "id_job ?job \<notin> id_hist ` set (scrapingHistory exForgotten)"
    by (simp_all add: fa fh)
  have r4: "id_job ?job \<notin> id_hist ` set (scrapingHistory (checkStaleJobs (1000 + minutes 31) exForgotten))"
    using watchdog_times_out_stale_jobs[OF fd fl u, of "1000 + minutes 31"] fn by blast
  show ?thesis using d l s r1 r2 r3 h fd fl fn r4 unfolding i by simp
qed

text \<open>
  The claim as written fails on what is persisted. Here the history entry of the running
  job is gone (all data was deleted while it ran): the tick finds the job stale and
  removes it, and afterwards neither the history nor the index nor the results hold
  anything about it.
\<close>

theorem watchdog_persists_nothing_counterexample:
  "map_of (activeScrapeJobs exForgotten) 1 =
     Some ((newJob 0 1 exParams)\<lparr>progress := 10, lastUpdate := Some 1000\<rparr>) \<and>
   staleTime < (1000 + minutes 31) - 1000 \<and>
   \<not> has 1 (activeScrapeJobs (checkStaleJobs (1000 + minutes 31) exForgotten)) \<and>
   scrapingHistory (checkStaleJobs (1000 + minutes 31) exForgotten) = [] \<and>
   scrapingIndex (checkStaleJobs (1000 + minutes 31) exForgotten) = [] \<and>
   scrapingResults (checkStaleJobs (1000 + minutes 31) exForgotten) (JobId 0 1) = None"
  by (simp add: exForgotten_def deleteScrapedData_all_def handleProgressUpdate_def
        handleStartScraping_def startScrapeJob_def addToScrapingHistory_def newManager_def
        has_def Let_def checkStaleJobs_def isStale_def staleTime_def minutes_def newJob_def
        updateScrapingHistory_def)

subsection \<open>The retention sweep\<close>

lemma removeKeys_apply: "removeKeys ks r k = (if k \<in> set ks then None else r k)"
  by (induction ks arbitrary: r) auto

lemma distinct_map_eq:
  "distinct (map f xs) \<Longrightarrow> x \<in> set xs \<Longrightarrow> y \<in> set xs \<Longrightarrow> f x = f y \<Longrightarrow> x = y"
  by (meson distinct_map inj_onD)

lemma cutoffTime_eq: "cutoffTime now d = now - int (if d = 0 then 30 else d) * 86400000"
  by (simp add: cutoffTime_def)

lemma cleanupOldData_index:
  "scrapingIndex (cleanupOldData now d m) =
     filter (\<lambda>e. cutoffTime now d < timestamp e) (scrapingIndex m)"
proof (cases "filter (\<lambda>e. \<not> cutoffTime now d < timestamp e) (scrapingIndex m) = []")
  case True
  then have "\<forall>e\<in>set (scrapingIndex m). cutoffTime now d < timestamp e"
    by (simp add: filter_empty_conv)
  then have "filter (\<lambda>e. cutoffTime now d < timestamp e) (scrapingIndex m) = scrapingIndex m"
    by simp
  with True show ?thesis by (simp add: cleanupOldData_def)
next
  case False
  then show ?thesis by (simp add: cleanupOldData_def)
qed

lemma cleanupOldData_results:
  "scrapingResults (cleanupOldData now d m) k =
     (if k \<in> id_idx ` set (filter (\<lambda>e. \<not> cutoffTime now d < timestamp e) (scrapingIndex m))
      then None else scrapingResults m k)"
proof (cases "filter (\<lambda>e. \<not> cutoffTime now d < timestamp e) (scrapingIndex m) = []")
  case True
  then show ?thesis by (simp add: cleanupOldData_def)
next
  case False
  then show ?thesis by (simp add: cleanupOldData_def removeKeys_apply)
qed

lemma exBoundary_fields:
  "scrapingIndex exBoundary = [exEntry (30 * exDay + 1) 1, exEntry (30 * exDay) 2]"
  "scrapingResults exBoundary (JobId (30 * exDay) 2) = Some (exResult (30 * exDay) 2)"
  "scrapingResults exBoundary (JobId (30 * exDay + 1) 1) = Some (exResult (30 * exDay + 1) 1)"
  by (simp_all add: exBoundary_def exDone_def exDay_def exEntry_def exResult_def newManager_def
        handleStartScraping_def startScrapeJob_def addToScrapingHistory_def has_def Let_def
        handleProgressUpdate_def processScrapingQueue_def saveScrapingResults_def
        updateScrapingIndex_def newJob_def)

text \<open>
  Claim C8. Take an index in which no two entries share an id, and let
  \<open>now - retentionDays * 86400000\<close> be the cutoff, where \<open>retentionDays\<close> is the setting
  \<open>d\<close>, or 30 when the setting is absent or 0. The sweep at \<open>now\<close> keeps exactly the
  entries whose timestamp is later than the cutoff, in their order. Every other entry
  (older than the cutoff, or exactly at it) is gone from the index and no result is stored
  under its id. Every kept entry is in the index as it was, and what is stored under its
  id is what was stored before. Registry, queue and history are not touched.
\<close>

theorem retention_sweep:
  assumes "distinct (map id_idx (scrapingIndex m))"
  shows
    "scrapingIndex (cleanupOldData now d m) =
       filter (\<lambda>e. now - int (if d = 0 then 30 else d) * 86400000 < timestamp e) (scrapingIndex m) \<and>
     (\<forall>e\<in>set (scrapingIndex m).
        timestamp e \<le> now - int (if d = 0 then 30 else d) * 86400000 \<longrightarrow>
        e \<notin> set (scrapingIndex (cleanupOldData now d m)) \<and>
        scrapingResults (cleanupOldData now d m) (id_idx e) = None) \<and>
     (\<forall>e\<in>set (scrapingIndex m).
        now - int (if d = 0 then 30 else d) * 86400000 < timestamp e \<longrightarrow>
        e \<in> set (scrapingIndex (cleanupOldData now d m)) \<and>
        scrapingResults (cleanupOldData now d m) (id_idx e) = scrapingResults m (id_idx e)) \<and>
     activeScrapeJobs (cleanupOldData now d m) = activeScrapeJobs m \<and>
     scrapingQueue (cleanupOldData now d m) = scrapingQueue m \<and>
     scrapingHistory (cleanupOldData now d m) = scrapingHistory m"
proof -
  define c where "c = now - int (if d = 0 then 30 else d) * 86400000"
  have cut: "cutoffTime now d = c" by (simp add: c_def cutoffTime_eq)
  let ?expired = "filter (\<lambda>e. \<not> c < timestamp e) (scrapingIndex m)"
  have idx: "scrapingIndex (cleanupOldData now d m) = filter (\<lambda>e. c < timestamp e) (scrapingIndex m)"
    using cleanupOldData_index[of now d m] by (simp add: cut)
  have res: "scrapingResults (cleanupOldData now d m) k =
      (if k \<in> id_idx ` set ?expired then None else scrapingResults m k)" for k
    using cleanupOldData_results[of now d m k] by (simp add: cut)
  have old: "e \<notin> set (scrapingIndex (cleanupOldData now d m)) \<and>
        scrapingResults (cleanupOldData now d m) (id_idx e) = None"
    if "e \<in> set (scrapingIndex m)" "timestamp e \<le> c" for e
  proof -
    have "e \<in> set ?expired" using that by simp
    then have "id_idx e \<in> id_idx ` set ?expired" by (rule imageI)
    then show ?thesis using that(2) by (simp add: idx res)
  qed
  have new: "e \<in> set (scrapingIndex (cleanupOldData now d m)) \<and>
        scrapingResults (cleanupOldData now d m) (id_idx e) = scrapingResults m (id_idx e)"
    if "e \<in> set (scrapingIndex m)" "c < timestamp e" for e
  proof -
    have "id_idx e \<notin> id_idx ` set ?expired"
    proof
      assume "id_idx e \<in> id_idx ` set ?expired"
      then obtain x where x: "x \<in> set (scrapingIndex m)" "\<not> c < timestamp x"
        "id_idx e = id_idx x" by auto
      from distinct_map_eq[OF assms that(1) x(1) x(3)] have "e = x" .
      with x(2) that(2) show False by simp
    qed
    then show ?thesis using that by (simp add: idx res)
  qed
  have frame: "activeScrapeJobs (cleanupOldData now d m) = activeScrapeJobs m"
    "scrapingQueue (cleanupOldData now d m) = scrapingQueue m"
    "scrapingHistory (cleanupOldData now d m) = scrapingHistory m"
    by (simp_all add: cleanupOldData_def Let_def)
  show ?thesis unfolding c_def[symmetric] using idx old new frame by blast
qed

theorem retention_sweep_witness:
  "distinct (map id_idx (scrapingIndex exStored)) \<and>
   scrapingIndex (cleanupOldData (60 * exDay) 0 exStored) = [exEntry (59 * exDay) 1] \<and>
   timestamp (exEntry (20 * exDay) 2) \<le> 60 * exDay - int (if (0::nat) = 0 then 30 else 0) * 86400000 \<and>
   scrapingResults (cleanupOldData (60 * exDay) 0 exStored) (JobId (20 * exDay) 2) = None \<and>
   60 * exDay - int (if (0::nat) = 0 then 30 else 0) * 86400000 < timestamp (exEntry (59 * exDay) 1) \<and>
   scrapingResults (cleanupOldData (60 * exDay) 0 exStored) (JobId (59 * exDay) 1) =
     Some (exResult (59 * exDay) 1) \<and>
   scrapingIndex (cleanupOldData (60 * exDay) 45 exStored) =
     [exEntry (59 * exDay) 1, exEntry (20 * exDay) 2] \<and>
   scrapingIndex (cleanupOldData (60 * exDay) 1 exStored) = [] \<and>
   scrapingIndex (cleanupOldData (100 * exDay) 0 exStored) = []"
proof -
  have d: "distinct (map id_idx (scrapingIndex exStored))"
    by (simp add: exStored_def exEntry_def exDay_def)
  have e: "exEntry (59 * exDay) 1 \<in> set (scrapingIndex exStored)"
    "exEntry (20 * exDay) 2 \<in> set (scrapingIndex exStored)"
    by (simp_all add: exStored_def)
  have t: "timestamp (exEntry (20 * exDay) 2) \<le> 60 * exDay - int (if (0::nat) = 0 then 30 else 0) * 86400000"
    "60 * exDay - int (if (0::nat) = 0 then 30 else 0) * 86400000 < timestamp (exEntry (59 * exDay) 1)"
    by (simp_all add: exEntry_def exDay_def)
  note r = retention_sweep[OF d, of "60 * exDay" 0]
  have r1: "scrapingIndex (cleanupOldData (60 * exDay) 0 exStored) =
       filter (\<lambda>e. 60 * exDay - int (if (0::nat) = 0 then 30 else 0) * 86400000 < timestamp e)
         (scrapingIndex exStored)"
    using r by blast
  have r2: "scrapingResults (cleanupOldData (60 * exDay) 0 exStored) (id_idx (exEntry (20 * exDay) 2)) = None"
    using r e(2) t(1) by blast
  have r3: "scrapingResults (cleanupOldData (60 * exDay) 0 exStored) (id_idx (exEntry (59 * exDay) 1)) =
      scrapingResults exStored (id_idx (exEntry (59 * exDay) 1))"
    using r e(1) t(2) by blast
  have i1: "scrapingIndex (cleanupOldData (60 * exDay) 0 exStored) = [exEntry (59 * exDay) 1]"
    unfolding r1 by (simp add: exStored_def exEntry_def exDay_def)
  have i2: "scrapingResults (cleanupOldData (60 * exDay) 0 exStored) (JobId (20 * exDay) 2) = None"
    using r2 by (simp add: exEntry_def)
  have i3: "scrapingResults (cleanupOldData (60 * exDay) 0 exStored) (JobId (59 * exDay) 1) =
     Some (exResult (59 * exDay) 1)"
    using r3 by (simp add: exEntry_def exStored_def exDay_def)
  have s1: "scrapingIndex (cleanupOldData (60 * exDay) 45 exStored) =
       filter (\<lambda>e. 60 * exDay - int (if (45::nat) = 0 then 30 else 45) * 86400000 < timestamp e)
         (scrapingIndex exStored)"
    using retention_sweep[OF d, of "60 * exDay" 45] by blast
  have s2: "scrapingIndex (cleanupOldData (60 * exDay) 1 exStored) =
       filter (\<lambda>e. 60 * exDay - int (if (1::nat) = 0 then 30 else 1) * 86400000 < timestamp e)
         (scrapingIndex exStored)"
    using retention_sweep[OF d, of "60 * exDay" 1] by blast
  have s3: "scrapingIndex (cleanupOldData (100 * exDay) 0 exStored) =
       filter (\<lambda>e. 100 * exDay - int (if (0::nat) = 0 then 30 else 0) * 86400000 < timestamp e)
         (scrapingIndex exStored)"
    using retention_sweep[OF d, of "100 * exDay" 0] by blast
  have j1: "scrapingIndex (cleanupOldData (60 * exDay) 45 exStored) =
     [exEntry (59 * exDay) 1, exEntry (20 * exDay) 2]"
    unfolding s1 by (simp add: exStored_def exEntry_def exDay_def)
  have j2: "scrapingIndex (cleanupOldData (60 * exDay) 1 exStored) = []"
    unfolding s2 by (simp add: exStored_def exEntry_def exDay_def)
  have j3: "scrapingIndex (cleanupOldData (100 * exDay) 0 exStored) = []"
    unfolding s3 by (simp add: exStored_def exEntry_def exDay_def)
  show ?thesis
    by (intro conjI) (fact d i1 t i2 i3 j1 j2 j3)+
qed

text \<open>
  Claim C8 as it stands, refuted at the boundary. Two sessions started on day 30 exactly
  and one millisecond later; the sweep runs on day 60 with a retention of 30 days, so the
  cutoff is day 30. The first session is not older than the cutoff, and yet its index entry
  and its record are deleted; the second is kept.
\<close>

theorem retention_boundary_counterexample:
  "scrapingIndex exBoundary = [exEntry (30 * exDay + 1) 1, exEntry (30 * exDay) 2] \<and>
   scrapingResults exBoundary (JobId (30 * exDay) 2) = Some (exResult (30 * exDay) 2) \<and>
   timestamp (exEntry (30 * exDay) 2) = 60 * exDay - 30 * 86400000 \<and>
   \<not> timestamp (exEntry (30 * exDay) 2) < 60 * exDay - 30 * 86400000 \<and>
   scrapingIndex (cleanupOldData (60 * exDay) 30 exBoundary) = [exEntry (30 * exDay + 1) 1] \<and>
   scrapingResults (cleanupOldData (60 * exDay) 30 exBoundary) (JobId (30 * exDay) 2) = None \<and>
   scrapingResults (cleanupOldData (60 * exDay) 30 exBoundary) (JobId (30 * exDay + 1) 1) =
     Some (exResult (30 * exDay + 1) 1)"
proof -
  have c: "cutoffTime (60 * exDay) 30 = 30 * exDay"
    by (simp add: cutoffTime_def exDay_def)
  have t: "timestamp (exEntry (30 * exDay) 2) = 60 * exDay - 30 * 86400000"
    "\<not> timestamp (exEntry (30 * exDay) 2) < 60 * exDay - 30 * 86400000"
    by (simp_all add: exEntry_def exDay_def)
  have i: "scrapingIndex (cleanupOldData (60 * exDay) 30 exBoundary) = [exEntry (30 * exDay + 1) 1]"
    unfolding cleanupOldData_index c by (simp add: exBoundary_fields exEntry_def)
  have r1: "scrapingResults (cleanupOldData (60 * exDay) 30 exBoundary) (JobId (30 * exDay) 2) = None"
    unfolding cleanupOldData_results c by (simp add: exBoundary_fields exEntry_def)
  have r2: "scrapingResults (cleanupOldData (60 * exDay) 30 exBoundary) (JobId (30 * exDay + 1) 1) =
     Some (exResult (30 * exDay + 1) 1)"
    unfolding cleanupOldData_results c
    by (simp add: exBoundary_fields exBoundary_fields[unfolded exDay_def, simplified]
          exEntry_def exDay_def)
  show ?thesis
    by (intro conjI) (fact exBoundary_fields t i r1 r2)+
qed

subsection \<open>Draining the queue\<close>

lemma delete_shrinks: "map_of al t \<noteq> None \<Longrightarrow> length (AList.delete t al) < length al"
  by (induction al) (auto simp: less_Suc_eq_le length_delete_le split: if_splits)

lemma saveScrapingResults_frame [simp]:
  "activeScrapeJobs (saveScrapingResults job m) = activeScrapeJobs m"
  "scrapingQueue (saveScrapingResults job m) = scrapingQueue m"
  "maxConcurrentScrapes (saveScrapingResults job m) = maxConcurrentScrapes m"
  by (simp_all add: saveScrapingResults_def updateScrapingIndex_def Let_def)

lemma updateScrapingHistory_frame [simp]:
  "activeScrapeJobs (updateScrapingHistory job m) = activeScrapeJobs m"
  "scrapingQueue (updateScrapingHistory job m) = scrapingQueue m"
  "maxConcurrentScrapes (updateScrapingHistory job m) = maxConcurrentScrapes m"
  by (simp_all add: updateScrapingHistory_def)

lemma processScrapingQueue_admits:
  assumes "scrapingQueue m = q # qs" "length (activeScrapeJobs m) < maxConcurrentScrapes m"
  shows "scrapingQueue (processScrapingQueue now send m) = qs"
    and "send = None \<Longrightarrow> map_of (activeScrapeJobs (processScrapingQueue now send m)) (tabId_q q) =
           Some (newJob now (tabId_q q) (scrapingParams q))"
  using assms
  by (auto simp: processScrapingQueue_def startScrapeJob_def Let_def addToScrapingHistory_def
        update_conv' split: option.splits)

text \<open>
  Completion and cancellation drain the queue in order. Take a registry within the ceiling
  that holds a job for tab \<open>t\<close>, and a queue with the request \<open>q\<close> at its head. A
  complete event from \<open>t\<close>, and likewise a cancellation of \<open>t\<close>, leaves the queue
  without its head and otherwise as it was; when the start signal is delivered, the
  head's tab is then registered with a new running job for the head's parameters.
\<close>

theorem freed_slot_admits_oldest:
  assumes "map_of (activeScrapeJobs m) t = Some job"
    and "scrapingQueue m = q # qs"
    and "length (activeScrapeJobs m) \<le> maxConcurrentScrapes m"
  shows "scrapingQueue (handleProgressUpdate now send t (pd\<lparr>type_pd := Complete\<rparr>) m) = qs \<and>
         map_of (activeScrapeJobs (handleProgressUpdate now None t (pd\<lparr>type_pd := Complete\<rparr>) m))
           (tabId_q q) = Some (newJob now (tabId_q q) (scrapingParams q)) \<and>
         scrapingQueue (cancelScrapeJob now send t m) = qs \<and>
         map_of (activeScrapeJobs (cancelScrapeJob now None t m)) (tabId_q q) =
           Some (newJob now (tabId_q q) (scrapingParams q)) \<and>
         status (newJob now (tabId_q q) (scrapingParams q)) = Running"
proof -
  have lt: "length (AList.delete t (activeScrapeJobs m)) < maxConcurrentScrapes m"
    using delete_shrinks[of "activeScrapeJobs m" t] assms(1,3) by simp
  let ?job2 = "job\<lparr>progress := progress_pd pd, lastUpdate := Some now, status := Completed,
                   endTime := Some now, extractedJobs := data_pd pd\<rparr>"
  let ?c = "(saveScrapingResults ?job2 m)\<lparr>activeScrapeJobs := AList.delete t (activeScrapeJobs m)\<rparr>"
  have hc: "handleProgressUpdate now s t (pd\<lparr>type_pd := Complete\<rparr>) m = processScrapingQueue now s ?c" for s
    using assms(1) by (simp add: handleProgressUpdate_def Let_def)
  have qc: "scrapingQueue ?c = q # qs" "length (activeScrapeJobs ?c) < maxConcurrentScrapes ?c"
    using assms(2) lt by simp_all
  let ?k = "(updateScrapingHistory (job\<lparr>status := Cancelled, endTime := Some now\<rparr>) m)
              \<lparr>activeScrapeJobs := AList.delete t (activeScrapeJobs m)\<rparr>"
  have hk: "cancelScrapeJob now s t m = processScrapingQueue now s ?k" for s
    using assms(1) by (simp add: cancelScrapeJob_def Let_def)
  have qk: "scrapingQueue ?k = q # qs" "length (activeScrapeJobs ?k) < maxConcurrentScrapes ?k"
    using assms(2) lt by simp_all
  show ?thesis
    unfolding hc hk
    using processScrapingQueue_admits[OF qc] processScrapingQueue_admits[OF qk]
    by (simp add: newJob_def)
qed


theorem freed_slot_admits_oldest_witness:
  "map_of (activeScrapeJobs exWaiting) 1 =
     Some ((newJob 0 1 exParams)\<lparr>progress := 10, lastUpdate := Some 1000\<rparr>) \<and>
   scrapingQueue exWaiting = [\<lparr>tabId_q = 2, scrapingParams = exParams, timestamp_q = 1\<rparr>] \<and>
   length (activeScrapeJobs exWaiting) \<le> maxConcurrentScrapes exWaiting \<and>
   scrapingQueue (handleProgressUpdate 2000 None 1
      \<lparr>type_pd = Complete, progress_pd = 100, data_pd = [], message_pd = ''Done''\<rparr> exWaiting) = [] \<and>
   map_of (activeScrapeJobs (handleProgressUpdate 2000 None 1
      \<lparr>type_pd = Complete, progress_pd = 100, data_pd = [], message_pd = ''Done''\<rparr> exWaiting)) 2 =
     Some (newJob 2000 2 exParams) \<and>
   scrapingQueue (cancelScrapeJob 2000 None 1 exWaiting) = [] \<and>
   map_of (activeScrapeJobs (cancelScrapeJob 2000 None 1 exWaiting)) 2 = Some (newJob 2000 2 exParams)"
proof -
  let ?pd = "\<lparr>type_pd = Complete, progress_pd = 100, data_pd = [], message_pd = ''Done''\<rparr>"
  have a: "map_of (activeScrapeJobs exWaiting) 1 =
     Some ((newJob 0 1 exParams)\<lparr>progress := 10, lastUpdate := Some 1000\<rparr>)"
    and q: "scrapingQueue exWaiting = [\<lparr>tabId_q = 2, scrapingParams = exParams, timestamp_q = 1\<rparr>]"
    and l: "length (activeScrapeJobs exWaiting) \<le> maxConcurrentScrapes exWaiting"
    by (simp_all add: exWaiting_fields)
  have p: "?pd\<lparr>type_pd := Complete\<rparr> = ?pd" by simp
  note t = freed_slot_admits_oldest[OF a q l, of 2000 None ?pd, unfolded p]
  show ?thesis using a q l t by simp
qed

subsection \<open>The ceiling under every event\<close>

lemma length_update_le: "length (AList.update k v al) \<le> Suc (length al)"
  by (induction al) auto

lemma startScrapeJob_within:
  assumes "distinct (map fst (activeScrapeJobs m))" "length (activeScrapeJobs m) < maxConcurrentScrapes m"
  shows "within (snd (startScrapeJob now send t p m))"
    and "maxConcurrentScrapes (snd (startScrapeJob now send t p m)) = maxConcurrentScrapes m"
proof -
  have "length (AList.update t (newJob now t p) (activeScrapeJobs m)) \<le> maxConcurrentScrapes m"
    using length_update_le[of t "newJob now t p" "activeScrapeJobs m"] assms(2) by simp
  moreover have "length (AList.delete t (activeScrapeJobs m)) \<le> maxConcurrentScrapes m"
    using length_delete_le[of t "activeScrapeJobs m"] assms(2) by simp
  ultimately show "within (snd (startScrapeJob now send t p m))"
    using assms(1)
    by (cases send)
       (simp_all add: within_def startScrapeJob_def Let_def addToScrapingHistory_def
          distinct_update distinct_delete delete_update_same)
  show "maxConcurrentScrapes (snd (startScrapeJob now send t p m)) = maxConcurrentScrapes m"
    by (cases send) (simp_all add: startScrapeJob_def Let_def addToScrapingHistory_def)
qed

lemma processScrapingQueue_within:
  assumes "within m"
  shows "within (processScrapingQueue now send m) \<and>
         maxConcurrentScrapes (processScrapingQueue now send m) = maxConcurrentScrapes m"
proof (cases "scrapingQueue m")
  case Nil
  then show ?thesis using assms by (simp add: processScrapingQueue_def)
next
  case (Cons q qs)
  show ?thesis
  proof (cases "length (activeScrapeJobs m) < maxConcurrentScrapes m")
    case True
    let ?m = "m\<lparr>scrapingQueue := qs\<rparr>"
    have "distinct (map fst (activeScrapeJobs ?m))" "length (activeScrapeJobs ?m) < maxConcurrentScrapes ?m"
      using assms True by (simp_all add: within_def)
    from startScrapeJob_within[OF this] show ?thesis
      using Cons True by (simp add: processScrapingQueue_def)
  next
    case False
    then show ?thesis using assms Cons by (simp add: processScrapingQueue_def)
  qed
qed

lemma within_delete:
  assumes "within m" "activeScrapeJobs m' = AList.delete t (activeScrapeJobs m)"
    "maxConcurrentScrapes m' = maxConcurrentScrapes m"
  shows "within m'"
  using assms length_delete_le[of t "activeScrapeJobs m"]
  by (simp add: within_def distinct_delete)

lemma cancelScrapeJob_within:
  assumes "within m"
  shows "within (cancelScrapeJob now send t m) \<and>
         maxConcurrentScrapes (cancelScrapeJob now send t m) = maxConcurrentScrapes m"
proof (cases "map_of (activeScrapeJobs m) t")
  case None
  then show ?thesis using assms by (simp add: cancelScrapeJob_def)
next
  case (Some job)
  let ?k = "(updateScrapingHistory (job\<lparr>status := Cancelled, endTime := Some now\<rparr>) m)
              \<lparr>activeScrapeJobs := AList.delete t (activeScrapeJobs m)\<rparr>"
  have "within ?k" using assms by (rule within_delete) simp_all
  from processScrapingQueue_within[OF this, of now send] show ?thesis
    using Some by (simp add: cancelScrapeJob_def Let_def)
qed

lemma handleProgressUpdate_within:
  assumes "within m"
  shows "within (handleProgressUpdate now send t pd m) \<and>
         maxConcurrentScrapes (handleProgressUpdate now send t pd m) = maxConcurrentScrapes m"
proof (cases "map_of (activeScrapeJobs m) t")
  case None
  then show ?thesis using assms by (simp add: handleProgressUpdate_def)
next
  case (Some job)
  then have i: "map_of (activeScrapeJobs m) t \<noteq> None" by simp
  show ?thesis
  proof (cases "type_pd pd")
    case Complete
    let ?job2 = "job\<lparr>progress := progress_pd pd, lastUpdate := Some now, status := Completed,
                   endTime := Some now, extractedJobs := data_pd pd\<rparr>"
    let ?c = "(saveScrapingResults ?job2 m)\<lparr>activeScrapeJobs := AList.delete t (activeScrapeJobs m)\<rparr>"
    have "within ?c" using assms by (rule within_delete) simp_all
    from processScrapingQueue_within[OF this, of now send] show ?thesis
      using Some Complete by (simp add: handleProgressUpdate_def Let_def)
  next
    case Info
    then show ?thesis
      using Some assms i
      by (simp add: handleProgressUpdate_def Let_def within_def distinct_update length_update_in)
  next
    case Error
    then show ?thesis
      using Some assms i
      by (simp add: handleProgressUpdate_def Let_def within_def distinct_update length_update_in)
  qed
qed

lemma checkStaleJobs_within:
  assumes "within m"
  shows "within (checkStaleJobs now m)"
proof -
  have d: "distinct (map fst (activeScrapeJobs m))" using assms by (simp add: within_def)
  have "length (filter (\<lambda>p. \<not> isStale now (snd p)) (activeScrapeJobs m)) \<le> length (activeScrapeJobs m)"
    by (rule length_filter_le)
  also have "\<dots> \<le> maxConcurrentScrapes m" using assms by (simp add: within_def)
  finally have "length (filter (\<lambda>p. \<not> isStale now (snd p)) (activeScrapeJobs m)) \<le> maxConcurrentScrapes m" .
  then show ?thesis
    using d by (simp add: within_def checkStaleJobs_active[OF d] distinct_map_filter)
qed

lemma step_within:
  assumes "within m"
  shows "within (step now send e m) \<and> maxConcurrentScrapes (step now send e m) = maxConcurrentScrapes m"
proof (cases e)
  case (StartScraping t p)
  then show ?thesis
    using assms hs_bound[of m now send t p] hs_distinct[of m now send t p]
    by (simp add: within_def)
next
  case (StopScraping t)
  then show ?thesis using cancelScrapeJob_within[OF assms] by simp
next
  case (ProgressUpdate t pd)
  then show ?thesis using handleProgressUpdate_within[OF assms] by simp
next
  case (TabRemoved t)
  then show ?thesis using cancelScrapeJob_within[OF assms] assms by (simp add: handleTabRemoved_def)
next
  case StaleCheck
  then show ?thesis using checkStaleJobs_within[OF assms] by simp
next
  case (Cleanup d)
  then show ?thesis using assms by (simp add: within_def cleanupOldData_def Let_def)
next
  case DeleteAll
  then show ?thesis using assms by (simp add: within_def deleteScrapedData_all_def)
qed

text \<open>
  The ceiling holds under every event. From a registry with one entry per tab and within
  the ceiling, any sequence of submissions, stops, progress updates, closed tabs, watchdog
  ticks, retention sweeps and deletions leaves the registry with one entry per tab and
  within the same ceiling.
\<close>

theorem registry_stays_within_ceiling:
  "distinct (map fst (activeScrapeJobs m)) \<Longrightarrow>
   length (activeScrapeJobs m) \<le> maxConcurrentScrapes m \<Longrightarrow>
   distinct (map fst (activeScrapeJobs (run es m))) \<and>
   length (activeScrapeJobs (run es m)) \<le> maxConcurrentScrapes m \<and>
   maxConcurrentScrapes (run es m) = maxConcurrentScrapes m"
proof (induction es arbitrary: m)
  case Nil
  then show ?case by simp
next
  case (Cons x es)
  obtain now send e where x: "x = (now, send, e)" by (cases x)
  have w: "within m" using Cons.prems by (simp add: within_def)
  from step_within[OF w, of now send e]
  have s: "distinct (map fst (activeScrapeJobs (step now send e m)))"
    "length (activeScrapeJobs (step now send e m)) \<le> maxConcurrentScrapes (step now send e m)"
    "maxConcurrentScrapes (step now send e m) = maxConcurrentScrapes m"
    by (simp_all add: within_def)
  from Cons.IH[OF s(1,2)] show ?case by (simp add: x s(3))
qed


theorem registry_stays_within_ceiling_witness:
  "distinct (map fst (activeScrapeJobs (newManager 2))) \<and>
   length (activeScrapeJobs (newManager 2)) \<le> maxConcurrentScrapes (newManager 2) \<and>
   distinct (map fst (activeScrapeJobs (run exEvents (newManager 2)))) \<and>
   length (activeScrapeJobs (run exEvents (newManager 2))) \<le> 2 \<and>
   map fst (activeScrapeJobs (run exEvents (newManager 2))) = [3]"
proof -
  have d: "distinct (map fst (activeScrapeJobs (newManager 2)))"
    and l: "length (activeScrapeJobs (newManager 2)) \<le> maxConcurrentScrapes (newManager 2)"
    by (simp_all add: newManager_def)
  note t = registry_stays_within_ceiling[OF d l, of exEvents]
  have c: "maxConcurrentScrapes (newManager 2) = 2" by (simp add: newManager_def)
  have e: "map fst (activeScrapeJobs (run exEvents (newManager 2))) = [3]"
    by (simp add: exEvents_def newManager_def handleStartScraping_def startScrapeJob_def
          addToScrapingHistory_def has_def Let_def handleProgressUpdate_def
          saveScrapingResults_def updateScrapingIndex_def processScrapingQueue_def
          checkStaleJobs_def isStale_def newJob_def handleTabRemoved_def cancelScrapeJob_def
          updateScrapingHistory_def cleanupOldData_def cutoffTime_def)
  show ?thesis using d l t e unfolding c by simp
qed

section \<open>Properties of the storage manager\<close>

subsection \<open>Eviction under quota pressure\<close>

lemma sessionsToRemove_length [simp]:
  "length (sessionsToRemove st) = length (index_st st) div 4"
  by (simp add: sessionsToRemove_def Let_def)

lemma sessionsToRemove_subset: "set (sessionsToRemove st) \<subseteq> set (index_st st)"
  by (metis sessionsToRemove_def set_sort set_take_subset)

lemma sessionsToRemove_oldest:
  assumes "x \<in> set (sessionsToRemove st)" "y \<in> set (index_st st)" "y \<notin> set (sessionsToRemove st)"
  shows "timestamp_e x \<le> timestamp_e y"
proof -
  let ?s = "sort_key timestamp_e (index_st st)"
  let ?k = "length ?s div 4"
  have "sorted (map timestamp_e (take ?k ?s @ drop ?k ?s))" by simp
  then have "\<forall>a\<in>set (take ?k ?s). \<forall>b\<in>set (drop ?k ?s). timestamp_e a \<le> timestamp_e b"
    unfolding map_append sorted_append by auto
  moreover have "x \<in> set (take ?k ?s)" using assms(1) by (simp add: sessionsToRemove_def Let_def)
  moreover have "y \<in> set (drop ?k ?s)"
  proof -
    have "y \<in> set (take ?k ?s @ drop ?k ?s)" using assms(2) by simp
    moreover have "y \<notin> set (take ?k ?s)" using assms(3) by (simp add: sessionsToRemove_def Let_def)
    ultimately show ?thesis by (simp only: set_append) blast
  qed
  ultimately show ?thesis by blast
qed

lemma performStorageCleanup_index:
  "index_st (performStorageCleanup now st) =
     filter (\<lambda>e. id_e e \<notin> id_e ` set (sessionsToRemove st)) (index_st st)"
proof (cases "length (index_st st) div 4 = 0")
  case True
  then have "sessionsToRemove st = []" by (simp add: sessionsToRemove_def Let_def)
  then show ?thesis by (simp add: performStorageCleanup_def)
next
  case False
  then show ?thesis
    by (simp add: performStorageCleanup_def deleteMultipleSessions_def updateStorageStats_def
          calculateStorageStats_def)
qed

lemma performStorageCleanup_sessions:
  "sessions_st (performStorageCleanup now st) k =
     (if k \<in> id_e ` set (sessionsToRemove st) then None else sessions_st st k)"
proof (cases "length (index_st st) div 4 = 0")
  case True
  then have "sessionsToRemove st = []" by (simp add: sessionsToRemove_def Let_def)
  then show ?thesis by (simp add: performStorageCleanup_def)
next
  case False
  then show ?thesis
    by (simp add: performStorageCleanup_def deleteMultipleSessions_def updateStorageStats_def
          calculateStorageStats_def removeKeys_apply)
qed

lemma distinct_ids_mem:
  assumes "distinct (map id_e xs)" "set ys \<subseteq> set xs" "e \<in> set xs"
  shows "id_e e \<in> id_e ` set ys \<longleftrightarrow> e \<in> set ys"
proof
  assume "id_e e \<in> id_e ` set ys"
  then obtain y where y: "y \<in> set ys" "id_e e = id_e y" by auto
  then have "y \<in> set xs" using assms(2) by auto
  from distinct_map_eq[OF assms(1) assms(3) this y(2)] y(1) show "e \<in> set ys" by simp
qed auto

lemma performStorageCleanup_index_distinct:
  assumes "distinct (map id_e (index_st st))"
  shows "index_st (performStorageCleanup now st) =
     filter (\<lambda>e. e \<notin> set (sessionsToRemove st)) (index_st st)"
  unfolding performStorageCleanup_index
  by (rule filter_cong[OF refl])
     (simp add: distinct_ids_mem[OF assms sessionsToRemove_subset])

lemma performStorageCleanup_length:
  assumes "distinct (map id_e (index_st st))"
  shows "length (index_st (performStorageCleanup now st)) =
     length (index_st st) - length (index_st st) div 4"
proof -
  have d: "distinct (index_st st)" using assms by (simp add: distinct_map)
  let ?s = "sort_key timestamp_e (index_st st)"
  let ?k = "length (index_st st) div 4"
  have ds: "distinct ?s" using d by simp
  have "set (filter (\<lambda>e. e \<notin> set (sessionsToRemove st)) (index_st st)) = set ?s - set (take ?k ?s)"
    by (auto simp: sessionsToRemove_def Let_def)
  also have "\<dots> = set (drop ?k ?s)"
  proof -
    have "set (take ?k ?s) \<inter> set (drop ?k ?s) = {}"
      using ds by (simp add: set_take_disj_set_drop_if_distinct)
    moreover have "set ?s = set (take ?k ?s) \<union> set (drop ?k ?s)"
      by (metis append_take_drop_id set_append)
    ultimately show ?thesis by blast
  qed
  finally have e: "set (filter (\<lambda>e. e \<notin> set (sessionsToRemove st)) (index_st st)) = set (drop ?k ?s)" .
  have "length (filter (\<lambda>e. e \<notin> set (sessionsToRemove st)) (index_st st)) =
        card (set (filter (\<lambda>e. e \<notin> set (sessionsToRemove st)) (index_st st)))"
    using d by (simp only: distinct_card[OF distinct_filter])
  also have "\<dots> = card (set (drop ?k ?s))" by (simp only: e)
  also have "\<dots> = length (drop ?k ?s)" using ds by (simp only: distinct_card[OF distinct_drop])
  finally have "length (filter (\<lambda>e. e \<notin> set (sessionsToRemove st)) (index_st st)) = length (drop ?k ?s)" .
  then show ?thesis by (simp add: performStorageCleanup_index_distinct[OF assms])
qed


lemma checkStorageQuota_over:
  "80 * quota < bytesInUse * 100 \<Longrightarrow>
   checkStorageQuota now bytesInUse quota st = performStorageCleanup now st"
  by (simp add: checkStorageQuota_def)

lemma checkStorageQuota_under:
  "bytesInUse * 100 \<le> 80 * quota \<Longrightarrow> checkStorageQuota now bytesInUse quota st = st"
  by (simp add: checkStorageQuota_def)

lemma checkStorageQuota_length: "length (index_st (checkStorageQuota now b q st)) \<le> length (index_st st)"
  by (simp add: checkStorageQuota_def performStorageCleanup_index)

lemma replaceFirst_length: "replaceFirst new index = Some index' \<Longrightarrow> length index' = length index"
  by (induction index arbitrary: index') (auto split: if_splits)

lemma upsert_length: "length (upsert new index) \<le> Suc (length index)"
  by (auto simp: upsert_def replaceFirst_length split: option.splits)

lemma updateScrapingIndexWith_fits:
  "length (upsert (indexEntryOf g s) (index_st st)) \<le> cap \<Longrightarrow>
   updateScrapingIndexWith cap g now s st = st\<lparr>index_st := upsert (indexEntryOf g s) (index_st st)\<rparr>"
  by (simp add: updateScrapingIndexWith_def Let_def)

text \<open>
  Claim C2. Take a store whose index has no two entries with one id. When the bytes in use
  are above 80 percent of the quota, the quota check made before the write removes the
  sessions picked for removal: the first quarter, rounded down, of the index sorted by
  timestamp. They are index entries, none of them is newer than any entry that stays,
  their session records are gone, the index that is left is the old one without them (so
  it is shorter by exactly that quarter) and the records of the entries that stay are as
  they were. At 80 percent or less the check changes nothing. The save writes the session
  into the store the check has left and then updates index and statistics; when the index
  has room for one more entry, the store ends with the session written and its entry
  upserted into the index the check has left.
\<close>

theorem quota_eviction_before_write:
  assumes "distinct (map id_e (index_st st))"
  shows
    "(80 * quota < bytesInUse * 100 \<longrightarrow>
        length (sessionsToRemove st) = length (index_st st) div 4 \<and>
        index_st (checkStorageQuota now bytesInUse quota st) =
          filter (\<lambda>e. e \<notin> set (sessionsToRemove st)) (index_st st) \<and>
        length (index_st (checkStorageQuota now bytesInUse quota st)) =
          length (index_st st) - length (index_st st) div 4 \<and>
        (\<forall>x\<in>set (sessionsToRemove st).
           x \<in> set (index_st st) \<and>
           sessions_st (checkStorageQuota now bytesInUse quota st) (id_e x) = None \<and>
           (\<forall>y\<in>set (index_st (checkStorageQuota now bytesInUse quota st)).
              timestamp_e x \<le> timestamp_e y)) \<and>
        (\<forall>y\<in>set (index_st (checkStorageQuota now bytesInUse quota st)).
           sessions_st (checkStorageQuota now bytesInUse quota st) (id_e y) =
             sessions_st st (id_e y))) \<and>
     (bytesInUse * 100 \<le> 80 * quota \<longrightarrow> checkStorageQuota now bytesInUse quota st = st) \<and>
     snd (saveScrapingSessionWith cap toISO getDataSize now bytesInUse quota sessionData st) =
       updateStorageStats now
         (updateScrapingIndexWith cap getDataSize now sessionData
            ((checkStorageQuota now bytesInUse quota st)
               \<lparr>sessions_st := (sessions_st (checkStorageQuota now bytesInUse quota st))
                  (id_s sessionData \<mapsto> optimizeDataForStorage toISO sessionData)\<rparr>)) \<and>
     (length (index_st st) < cap \<longrightarrow>
        index_st (snd (saveScrapingSessionWith cap toISO getDataSize now bytesInUse quota sessionData st)) =
          upsert (indexEntryOf getDataSize sessionData)
            (index_st (checkStorageQuota now bytesInUse quota st)) \<and>
        sessions_st (snd (saveScrapingSessionWith cap toISO getDataSize now bytesInUse quota sessionData st)) =
          (sessions_st (checkStorageQuota now bytesInUse quota st))
            (id_s sessionData \<mapsto> optimizeDataForStorage toISO sessionData))"
proof -
  let ?q = "checkStorageQuota now bytesInUse quota st"
  let ?save = "saveScrapingSessionWith cap toISO getDataSize now bytesInUse quota sessionData st"
  let ?w = "?q\<lparr>sessions_st := (sessions_st ?q)(id_s sessionData \<mapsto> optimizeDataForStorage toISO sessionData)\<rparr>"
  have over: "length (sessionsToRemove st) = length (index_st st) div 4 \<and>
        index_st ?q = filter (\<lambda>e. e \<notin> set (sessionsToRemove st)) (index_st st) \<and>
        length (index_st ?q) = length (index_st st) - length (index_st st) div 4 \<and>
        (\<forall>x\<in>set (sessionsToRemove st).
           x \<in> set (index_st st) \<and> sessions_st ?q (id_e x) = None \<and>
           (\<forall>y\<in>set (index_st ?q). timestamp_e x \<le> timestamp_e y)) \<and>
        (\<forall>y\<in>set (index_st ?q). sessions_st ?q (id_e y) = sessions_st st (id_e y))"
    if o: "80 * quota < bytesInUse * 100"
  proof -
    have q: "?q = performStorageCleanup now st" using o by (rule checkStorageQuota_over)
    have i: "index_st ?q = filter (\<lambda>e. e \<notin> set (sessionsToRemove st)) (index_st st)"
      unfolding q by (rule performStorageCleanup_index_distinct[OF assms])
    have l: "length (index_st ?q) = length (index_st st) - length (index_st st) div 4"
      unfolding q by (rule performStorageCleanup_length[OF assms])
    have x: "x \<in> set (index_st st) \<and> sessions_st ?q (id_e x) = None \<and>
           (\<forall>y\<in>set (index_st ?q). timestamp_e x \<le> timestamp_e y)"
      if "x \<in> set (sessionsToRemove st)" for x
    proof (intro conjI ballI)
      show "x \<in> set (index_st st)" using that sessionsToRemove_subset by blast
      show "sessions_st ?q (id_e x) = None"
        unfolding q using that by (simp add: performStorageCleanup_sessions)
      fix y assume "y \<in> set (index_st ?q)"
      then have "y \<in> set (index_st st)" "y \<notin> set (sessionsToRemove st)" by (simp_all add: i)
      with that show "timestamp_e x \<le> timestamp_e y" by (rule sessionsToRemove_oldest)
    qed
    have y: "sessions_st ?q (id_e y) = sessions_st st (id_e y)" if "y \<in> set (index_st ?q)" for y
    proof -
      have m: "y \<in> set (index_st st)" "y \<notin> set (sessionsToRemove st)" using that by (simp_all add: i)
      then have "id_e y \<notin> id_e ` set (sessionsToRemove st)"
        by (simp add: distinct_ids_mem[OF assms sessionsToRemove_subset])
      then show ?thesis unfolding q by (simp add: performStorageCleanup_sessions)
    qed
    show ?thesis using i l x y by simp
  qed
  have s: "snd ?save = updateStorageStats now (updateScrapingIndexWith cap getDataSize now sessionData ?w)"
    by (simp add: saveScrapingSessionWith_def Let_def)
  have room: "index_st (snd ?save) = upsert (indexEntryOf getDataSize sessionData) (index_st ?q) \<and>
        sessions_st (snd ?save) = (sessions_st ?q)(id_s sessionData \<mapsto> optimizeDataForStorage toISO sessionData)"
    if r: "length (index_st st) < cap"
  proof -
    have "length (upsert (indexEntryOf getDataSize sessionData) (index_st ?w)) \<le> Suc (length (index_st ?q))"
      using upsert_length[of _ "index_st ?q"] by simp
    also have "\<dots> \<le> cap" using r checkStorageQuota_length[of now bytesInUse quota st] by simp
    finally have "updateScrapingIndexWith cap getDataSize now sessionData ?w =
        ?w\<lparr>index_st := upsert (indexEntryOf getDataSize sessionData) (index_st ?w)\<rparr>"
      by (rule updateScrapingIndexWith_fits)
    then show ?thesis
      by (simp add: s updateStorageStats_def calculateStorageStats_def)
  qed
  show ?thesis using over checkStorageQuota_under[of bytesInUse quota now st] s room by blast
qed

lemma replaceFirst_ids: "replaceFirst new index = Some index' \<Longrightarrow> map id_e index' = map id_e index"
  by (induction index arbitrary: index') (auto split: if_splits)

lemma replaceFirst_None: "replaceFirst new index = None \<Longrightarrow> id_e new \<notin> id_e ` set index"
  by (induction index) (auto split: if_splits)

lemma upsert_distinct: "distinct (map id_e index) \<Longrightarrow> distinct (map id_e (upsert new index))"
  by (auto simp: upsert_def replaceFirst_ids dest: replaceFirst_None split: option.splits)

lemma exStore8_fields:
  "index_st exStore8 =
     [indexEntryOf exSize (exSession ''s8'' 80), indexEntryOf exSize (exSession ''s7'' 70),
      indexEntryOf exSize (exSession ''s6'' 60), indexEntryOf exSize (exSession ''s5'' 50),
      indexEntryOf exSize (exSession ''s4'' 40), indexEntryOf exSize (exSession ''s3'' 30),
      indexEntryOf exSize (exSession ''s2'' 20), indexEntryOf exSize (exSession ''s1'' 10)]"
  "sessions_st exStore8 ''s3'' = Some (exSession ''s3'' 30)"
  by (simp_all add: exStore8_def emptyStore_def exSession_def saveScrapingSessionWith_def Let_def
        checkStorageQuota_def updateScrapingIndexWith_def upsert_def indexEntryOf_def
        updateStorageStats_def calculateStorageStats_def optimizeDataForStorage_def
        deduplicateJobs_def)

lemma exStore8_remove:
  "sessionsToRemove exStore8 =
     [indexEntryOf exSize (exSession ''s1'' 10), indexEntryOf exSize (exSession ''s2'' 20)]"
  by (simp add: sessionsToRemove_def exStore8_fields indexEntryOf_def exSession_def Let_def)

theorem quota_eviction_before_write_witness:
  "distinct (map id_e (index_st exStore8)) \<and>
   length (index_st exStore8) = 8 \<and>
   (80::nat) * 100 < 85 * 100 \<and>
   map id_e (sessionsToRemove exStore8) = [''s1'', ''s2''] \<and>
   map id_e (index_st (checkStorageQuota 95 85 100 exStore8)) =
     [''s8'', ''s7'', ''s6'', ''s5'', ''s4'', ''s3''] \<and>
   sessions_st (checkStorageQuota 95 85 100 exStore8) ''s1'' = None \<and>
   sessions_st (checkStorageQuota 95 85 100 exStore8) ''s2'' = None \<and>
   sessions_st (checkStorageQuota 95 85 100 exStore8) ''s3'' = Some (exSession ''s3'' 30) \<and>
   map id_e (index_st (snd (saveScrapingSessionWith 1000 exISO exSize 95 85 100
       (exSession ''s9'' 90) exStore8))) =
     [''s9'', ''s8'', ''s7'', ''s6'', ''s5'', ''s4'', ''s3''] \<and>
   timestamp_e (indexEntryOf exSize (exSession ''s2'' 20)) \<le>
     timestamp_e (indexEntryOf exSize (exSession ''s3'' 30)) \<and>
   (10::nat) * 100 \<le> 80 * 100 \<and>
   checkStorageQuota 95 10 100 exStore8 = exStore8"
proof -
  let ?q = "checkStorageQuota 95 85 100 exStore8"
  have d: "distinct (map id_e (index_st exStore8))"
    by (simp add: exStore8_fields indexEntryOf_def exSession_def)
  have n: "length (index_st exStore8) = 8" "length (index_st exStore8) < 1000"
    by (simp_all add: exStore8_fields)
  have o: "(80::nat) * 100 < 85 * 100" and u: "(10::nat) * 100 \<le> 80 * 100" by simp_all
  note t = quota_eviction_before_write[OF d, of 100 85 95 1000 exISO exSize "exSession ''s9'' 90"]
  note t' = quota_eviction_before_write[OF d, of 100 10 95 1000 exISO exSize "exSession ''s9'' 90"]
  have i: "index_st ?q = filter (\<lambda>e. e \<notin> set (sessionsToRemove exStore8)) (index_st exStore8)"
    using t o by blast
  have i': "map id_e (index_st ?q) = [''s8'', ''s7'', ''s6'', ''s5'', ''s4'', ''s3'']"
    unfolding i by (simp add: exStore8_fields exStore8_remove indexEntryOf_def exSession_def)
  have m: "indexEntryOf exSize (exSession ''s1'' 10) \<in> set (sessionsToRemove exStore8)"
    "indexEntryOf exSize (exSession ''s2'' 20) \<in> set (sessionsToRemove exStore8)"
    by (simp_all add: exStore8_remove)
  have g1: "sessions_st ?q (id_e (indexEntryOf exSize (exSession ''s1'' 10))) = None"
    using t o m(1) by blast
  have g2: "sessions_st ?q (id_e (indexEntryOf exSize (exSession ''s2'' 20))) = None"
    using t o m(2) by blast
  have k: "indexEntryOf exSize (exSession ''s3'' 30) \<in> set (index_st ?q)"
    unfolding i by (simp add: exStore8_fields exStore8_remove indexEntryOf_def exSession_def)
  have k3: "sessions_st ?q (id_e (indexEntryOf exSize (exSession ''s3'' 30))) =
      sessions_st exStore8 (id_e (indexEntryOf exSize (exSession ''s3'' 30)))"
    using t o k by blast
  have w: "index_st (snd (saveScrapingSessionWith 1000 exISO exSize 95 85 100
       (exSession ''s9'' 90) exStore8)) =
     upsert (indexEntryOf exSize (exSession ''s9'' 90)) (index_st ?q)"
    using t n(2) by blast
  have w': "map id_e (index_st (snd (saveScrapingSessionWith 1000 exISO exSize 95 85 100
       (exSession ''s9'' 90) exStore8))) =
     [''s9'', ''s8'', ''s7'', ''s6'', ''s5'', ''s4'', ''s3'']"
    unfolding w i
    by (simp add: exStore8_fields exStore8_remove indexEntryOf_def exSession_def upsert_def)
  have c: "checkStorageQuota 95 10 100 exStore8 = exStore8" using t' u by blast
  have ol: "timestamp_e (indexEntryOf exSize (exSession ''s2'' 20)) \<le>
      timestamp_e (indexEntryOf exSize (exSession ''s3'' 30))"
    using t o m(2) k by blast
  show ?thesis
    using d n(1) o u i' g1 g2 k3 w' c ol
    by (simp add: exStore8_remove exStore8_fields indexEntryOf_def exSession_def)
qed

subsection \<open>The index cap\<close>

lemma deleteScrapingSession_sessions:
  "sessions_st (deleteScrapingSession now i st) = (sessions_st st)(i := None)"
  by (simp add: deleteScrapingSession_def updateStorageStats_def calculateStorageStats_def)

lemma foldl_delete_sessions:
  "sessions_st (foldl (\<lambda>s entry. deleteScrapingSession now (id_e entry) s) st es) k =
     (if k \<in> id_e ` set es then None else sessions_st st k)"
  by (induction es arbitrary: st) (auto simp: deleteScrapingSession_sessions)

lemma updateScrapingIndexWith_index:
  "index_st (updateScrapingIndexWith cap g now s st) =
     take cap (upsert (indexEntryOf g s) (index_st st))"
  by (simp add: updateScrapingIndexWith_def Let_def)

lemma updateScrapingIndexWith_sessions:
  "sessions_st (updateScrapingIndexWith cap g now s st) k =
     (if k \<in> id_e ` set (drop cap (upsert (indexEntryOf g s) (index_st st))) then None
      else sessions_st st k)"
  by (simp add: updateScrapingIndexWith_def Let_def foldl_delete_sessions)

lemma updateScrapingIndexWith_distinct:
  "distinct (map id_e (index_st st)) \<Longrightarrow>
   distinct (map id_e (index_st (updateScrapingIndexWith cap g now s st)))"
  by (simp add: updateScrapingIndexWith_index upsert_distinct take_map[symmetric] distinct_take)

text \<open>
  Claim C3, as amended. After an upsert the index holds at most \<open>cap\<close> entries: it is the
  first \<open>cap\<close> entries of the index with the new entry put in (in the place of the entry
  with its id, else at the front). The session record of every entry that is cut off is
  deleted, and no other record changes. When the index with the new entry put in runs from
  the newest timestamp to the oldest, no entry that is cut off is newer than an entry that
  is kept. With the constant of the source the index holds at most 1000 entries.
\<close>

theorem index_cap_keeps_front:
  "length (index_st (updateScrapingIndexWith cap g now s st)) \<le> cap \<and>
   index_st (updateScrapingIndexWith cap g now s st) =
     take cap (upsert (indexEntryOf g s) (index_st st)) \<and>
   (\<forall>x\<in>set (drop cap (upsert (indexEntryOf g s) (index_st st))).
      sessions_st (updateScrapingIndexWith cap g now s st) (id_e x) = None) \<and>
   (\<forall>k. k \<notin> id_e ` set (drop cap (upsert (indexEntryOf g s) (index_st st))) \<longrightarrow>
      sessions_st (updateScrapingIndexWith cap g now s st) k = sessions_st st k) \<and>
   (sorted_wrt (\<lambda>a b. timestamp_e b \<le> timestamp_e a) (upsert (indexEntryOf g s) (index_st st)) \<longrightarrow>
      (\<forall>x\<in>set (drop cap (upsert (indexEntryOf g s) (index_st st))).
       \<forall>y\<in>set (index_st (updateScrapingIndexWith cap g now s st)).
         timestamp_e x \<le> timestamp_e y)) \<and>
   length (index_st (updateScrapingIndex_sm g now s st)) \<le> 1000"
proof (intro conjI allI impI ballI)
  let ?u = "upsert (indexEntryOf g s) (index_st st)"
  show "length (index_st (updateScrapingIndexWith cap g now s st)) \<le> cap"
    by (simp add: updateScrapingIndexWith_index)
  show "index_st (updateScrapingIndexWith cap g now s st) = take cap ?u"
    by (rule updateScrapingIndexWith_index)
  show "length (index_st (updateScrapingIndex_sm g now s st)) \<le> 1000"
    by (simp add: updateScrapingIndex_sm_def maxIndexEntries_def updateScrapingIndexWith_index)
  { fix x assume "x \<in> set (drop cap ?u)"
    then show "sessions_st (updateScrapingIndexWith cap g now s st) (id_e x) = None"
      by (simp add: updateScrapingIndexWith_sessions) }
  { fix k assume "k \<notin> id_e ` set (drop cap ?u)"
    then show "sessions_st (updateScrapingIndexWith cap g now s st) k = sessions_st st k"
      by (simp add: updateScrapingIndexWith_sessions) }
  { fix x y
    assume "sorted_wrt (\<lambda>a b. timestamp_e b \<le> timestamp_e a) ?u"
    then have "sorted_wrt (\<lambda>a b. timestamp_e b \<le> timestamp_e a) (take cap ?u @ drop cap ?u)"
      by simp
    then have "\<forall>a\<in>set (take cap ?u). \<forall>b\<in>set (drop cap ?u). timestamp_e b \<le> timestamp_e a"
      unfolding sorted_wrt_append by blast
    moreover assume "x \<in> set (drop cap ?u)"
      "y \<in> set (index_st (updateScrapingIndexWith cap g now s st))"
    ultimately show "timestamp_e x \<le> timestamp_e y"
      by (simp add: updateScrapingIndexWith_index) }
qed

lemma exFive_index:
  "index_st exFive =
     [indexEntryOf exSize (exSession ''s5'' 50), indexEntryOf exSize (exSession ''s4'' 40),
      indexEntryOf exSize (exSession ''s3'' 30)]"
  by (simp add: exFive_def emptyStore_def exSession_def saveScrapingSessionWith_def Let_def
        checkStorageQuota_def updateScrapingIndexWith_def upsert_def indexEntryOf_def
        updateStorageStats_def calculateStorageStats_def optimizeDataForStorage_def
        deduplicateJobs_def deleteScrapingSession_def)

lemma exFive_sessions:
  "sessions_st exFive ''s1'' = None" "sessions_st exFive ''s2'' = None"
  "sessions_st exFive ''s3'' = Some (exSession ''s3'' 30)"
  by (simp_all add: exFive_def emptyStore_def exSession_def saveScrapingSessionWith_def Let_def
        checkStorageQuota_def updateScrapingIndexWith_def upsert_def indexEntryOf_def
        updateStorageStats_def calculateStorageStats_def optimizeDataForStorage_def
        deduplicateJobs_def deleteScrapingSession_def)

theorem index_cap_keeps_front_witness:
  "map id_e (index_st exFive) = [''s5'', ''s4'', ''s3''] \<and>
   sessions_st exFive ''s1'' = None \<and> sessions_st exFive ''s2'' = None \<and>
   sorted_wrt (\<lambda>a b. timestamp_e b \<le> timestamp_e a)
     (upsert (indexEntryOf exSize (exSession ''s6'' 60)) (index_st exFive)) \<and>
   map id_e (index_st (updateScrapingIndexWith 3 exSize 65 (exSession ''s6'' 60) exFive)) =
     [''s6'', ''s5'', ''s4''] \<and>
   indexEntryOf exSize (exSession ''s3'' 30) \<in>
     set (drop 3 (upsert (indexEntryOf exSize (exSession ''s6'' 60)) (index_st exFive))) \<and>
   sessions_st (updateScrapingIndexWith 3 exSize 65 (exSession ''s6'' 60) exFive) ''s3'' = None \<and>
   ''s5'' \<notin> id_e ` set (drop 3 (upsert (indexEntryOf exSize (exSession ''s6'' 60)) (index_st exFive))) \<and>
   sessions_st (updateScrapingIndexWith 3 exSize 65 (exSession ''s6'' 60) exFive) ''s5'' =
     sessions_st exFive ''s5'' \<and>
   timestamp_e (indexEntryOf exSize (exSession ''s3'' 30)) \<le>
     timestamp_e (indexEntryOf exSize (exSession ''s4'' 40))"
proof -
  let ?u = "upsert (indexEntryOf exSize (exSession ''s6'' 60)) (index_st exFive)"
  let ?r = "updateScrapingIndexWith 3 exSize 65 (exSession ''s6'' 60) exFive"
  have u: "?u = [indexEntryOf exSize (exSession ''s6'' 60), indexEntryOf exSize (exSession ''s5'' 50),
      indexEntryOf exSize (exSession ''s4'' 40), indexEntryOf exSize (exSession ''s3'' 30)]"
    by (simp add: exFive_index upsert_def indexEntryOf_def exSession_def)
  have so: "sorted_wrt (\<lambda>a b. timestamp_e b \<le> timestamp_e a) ?u"
    unfolding u by (simp add: indexEntryOf_def exSession_def)
  have dr: "indexEntryOf exSize (exSession ''s3'' 30) \<in> set (drop 3 ?u)"
    and nd: "''s5'' \<notin> id_e ` set (drop 3 ?u)"
    unfolding u by (simp_all add: indexEntryOf_def exSession_def)
  note t = index_cap_keeps_front[of 3 exSize 65 "exSession ''s6'' 60" exFive]
  have i: "index_st ?r = take 3 ?u" using t by blast
  have i': "map id_e (index_st ?r) = [''s6'', ''s5'', ''s4'']"
    unfolding i u by (simp add: indexEntryOf_def exSession_def)
  have k: "indexEntryOf exSize (exSession ''s4'' 40) \<in> set (index_st ?r)"
    unfolding i u by simp
  have g: "sessions_st ?r (id_e (indexEntryOf exSize (exSession ''s3'' 30))) = None"
    using t dr by blast
  have f: "sessions_st ?r ''s5'' = sessions_st exFive ''s5''"
    using t nd by blast
  have o: "timestamp_e (indexEntryOf exSize (exSession ''s3'' 30)) \<le>
      timestamp_e (indexEntryOf exSize (exSession ''s4'' 40))"
    using t so dr k by blast
  have e: "map id_e (index_st exFive) = [''s5'', ''s4'', ''s3'']"
    by (simp add: exFive_index indexEntryOf_def exSession_def)
  have g': "sessions_st ?r ''s3'' = None" using g by (simp add: indexEntryOf_def exSession_def)
  show ?thesis using e exFive_sessions(1,2) so i' dr g' nd f o by blast
qed

text \<open>
  The claim as written fails when sessions are not saved in the order they started. With
  cap 2 and the sessions \<open>a\<close> (started at 5), \<open>b\<close> (started at 3) and \<open>c\<close> (started
  at 4) saved in this order, the index keeps \<open>c\<close> and \<open>b\<close>, with timestamps 4 and 3, and
  the session with the newest timestamp, \<open>a\<close>, is cut off and deleted.
\<close>

theorem index_cap_counterexample:
  "map id_s exOutOfOrder = [''a'', ''b'', ''c''] \<and>
   map startTime_s exOutOfOrder = [5, 3, 4] \<and>
   map id_e (index_st (saveAll 2 10 100 exOutOfOrder (emptyStore 0))) = [''c'', ''b''] \<and>
   map timestamp_e (index_st (saveAll 2 10 100 exOutOfOrder (emptyStore 0))) = [4, 3] \<and>
   sessions_st (saveAll 2 10 100 exOutOfOrder (emptyStore 0)) ''a'' = None"
  by (simp add: exOutOfOrder_def emptyStore_def saveScrapingSessionWith_def Let_def
        checkStorageQuota_def updateScrapingIndexWith_def upsert_def indexEntryOf_def
        updateStorageStats_def calculateStorageStats_def optimizeDataForStorage_def
        deduplicateJobs_def deleteScrapingSession_def)

subsection \<open>Deduplication\<close>

lemma dedupFrom_keys:
  "dedupKey ` set (dedupFrom seen jobs) = dedupKey ` set jobs - seen"
  by (induction jobs arbitrary: seen) auto

lemma dedupFrom_distinct: "distinct (map dedupKey (dedupFrom seen jobs))"
proof (induction jobs arbitrary: seen)
  case Nil
  show ?case by simp
next
  case (Cons job jobs)
  have "dedupKey job \<notin> dedupKey ` set (dedupFrom (insert (dedupKey job) seen) jobs)"
    by (simp add: dedupFrom_keys)
  then show ?case using Cons.IH by simp
qed

lemma dedupFrom_first:
  "j \<in> set (dedupFrom seen jobs) \<Longrightarrow>
   \<exists>pre post. jobs = pre @ j # post \<and> dedupKey j \<notin> dedupKey ` set pre \<and> dedupKey j \<notin> seen"
proof (induction jobs arbitrary: seen)
  case Nil
  then show ?case by simp
next
  case (Cons job jobs)
  show ?case
  proof (cases "dedupKey job \<in> seen")
    case True
    with Cons.prems have "j \<in> set (dedupFrom seen jobs)" by simp
    from Cons.IH[OF this] obtain pre post where
      p: "jobs = pre @ j # post" "dedupKey j \<notin> dedupKey ` set pre" "dedupKey j \<notin> seen" by blast
    then have "job # jobs = (job # pre) @ j # post" "dedupKey j \<notin> dedupKey ` set (job # pre)"
      using True by auto
    with p(3) show ?thesis by blast
  next
    case False
    show ?thesis
    proof (cases "j = job")
      case True
      then have "job # jobs = [] @ j # jobs" "dedupKey j \<notin> dedupKey ` set []" by simp_all
      with False True show ?thesis by blast
    next
      case nj: False
      with False Cons.prems have "j \<in> set (dedupFrom (insert (dedupKey job) seen) jobs)" by simp
      from Cons.IH[OF this] obtain pre post where
        p: "jobs = pre @ j # post" "dedupKey j \<notin> dedupKey ` set pre"
           "dedupKey j \<notin> insert (dedupKey job) seen" by blast
      then have "job # jobs = (job # pre) @ j # post" "dedupKey j \<notin> dedupKey ` set (job # pre)"
        "dedupKey j \<notin> seen" by auto
      then show ?thesis by blast
    qed
  qed
qed

lemma same_pair_same_key:
  "jobId a = jobId b \<Longrightarrow> jobUrl a = jobUrl b \<Longrightarrow> dedupKey a = dedupKey b"
  by (simp add: dedupKey_def)

lemma distinct_map_comp: "distinct (map (\<lambda>x. f (g x)) xs) \<Longrightarrow> distinct (map g xs)"
  by (induction xs) auto

lemma deduplicateJobs_pairs_distinct:
  "distinct (map (\<lambda>j. (jobId j, jobUrl j)) (deduplicateJobs jobs))"
proof (rule distinct_map_comp[where f="\<lambda>p. shown (fst p) @ ''_'' @ shown (snd p)"])
  show "distinct (map (\<lambda>x. shown (fst (jobId x, jobUrl x)) @ ''_'' @ shown (snd (jobId x, jobUrl x)))
          (deduplicateJobs jobs))"
    using dedupFrom_distinct[of "{}" jobs] by (simp add: deduplicateJobs_def dedupKey_def[abs_def])
qed

lemma dedupFrom_subseq: "subseq (dedupFrom seen jobs) jobs"
  by (induction jobs arbitrary: seen) auto

lemma dedupFrom_same:
  "dedupKey job \<notin> seen \<Longrightarrow> \<forall>j\<in>set jobs. dedupKey j = dedupKey job \<Longrightarrow>
   dedupFrom (insert (dedupKey job) seen) jobs = []"
  by (induction jobs) auto

text \<open>
  What deduplication does keep. The result is the input with records left out, in the
  input's order; no two records of it have the same key, hence no two have the same id and
  URL; every key of the input is the key of a record of it; each of its records is the
  first record of the input with its key; and a list of records that all have the id and
  URL of its first record is cut down to that first record.
\<close>

theorem dedup_keeps_first_of_each_key:
  "subseq (deduplicateJobs jobs) jobs \<and>
   distinct (map dedupKey (deduplicateJobs jobs)) \<and>
   distinct (map (\<lambda>j. (jobId j, jobUrl j)) (deduplicateJobs jobs)) \<and>
   dedupKey ` set (deduplicateJobs jobs) = dedupKey ` set jobs \<and>
   (\<forall>j\<in>set (deduplicateJobs jobs).
      \<exists>pre post. jobs = pre @ j # post \<and> dedupKey j \<notin> dedupKey ` set pre) \<and>
   ((\<forall>j\<in>set jobs. jobId j = jobId job \<and> jobUrl j = jobUrl job) \<longrightarrow>
      deduplicateJobs (job # jobs) = [job])"
proof (intro conjI ballI impI)
  show "subseq (deduplicateJobs jobs) jobs" by (simp add: deduplicateJobs_def dedupFrom_subseq)
  show "distinct (map dedupKey (deduplicateJobs jobs))"
    by (simp add: deduplicateJobs_def dedupFrom_distinct)
  show "distinct (map (\<lambda>j. (jobId j, jobUrl j)) (deduplicateJobs jobs))"
    by (rule deduplicateJobs_pairs_distinct)
  show "dedupKey ` set (deduplicateJobs jobs) = dedupKey ` set jobs"
    by (simp add: deduplicateJobs_def dedupFrom_keys)
next
  fix j assume "j \<in> set (deduplicateJobs jobs)"
  then show "\<exists>pre post. jobs = pre @ j # post \<and> dedupKey j \<notin> dedupKey ` set pre"
    using dedupFrom_first[of j "{}" jobs] by (auto simp: deduplicateJobs_def)
next
  assume "\<forall>j\<in>set jobs. jobId j = jobId job \<and> jobUrl j = jobUrl job"
  then have "\<forall>j\<in>set jobs. dedupKey j = dedupKey job" by (simp add: dedupKey_def)
  then show "deduplicateJobs (job # jobs) = [job]"
    using dedupFrom_same[of job "{}" jobs] by (simp add: deduplicateJobs_def)
qed


theorem dedup_keeps_first_of_each_key_witness:
  "set [exJob ''1'' ''u''] = {exJob ''1'' ''u''} \<and>
   deduplicateJobs [exJob ''1'' ''u'', exJob ''1'' ''u''] = [exJob ''1'' ''u''] \<and>
   deduplicateJobs [exJob ''1'' ''u'', exJob ''2'' ''v'', exJob ''1'' ''u''] =
     [exJob ''1'' ''u'', exJob ''2'' ''v''] \<and>
   exJob ''2'' ''v'' \<in> set (deduplicateJobs [exJob ''1'' ''u'', exJob ''2'' ''v'', exJob ''1'' ''u'']) \<and>
   (\<exists>pre post. [exJob ''1'' ''u'', exJob ''2'' ''v'', exJob ''1'' ''u''] = pre @ exJob ''2'' ''v'' # post \<and>
      dedupKey (exJob ''2'' ''v'') \<notin> dedupKey ` set pre)"
proof -
  have h: "\<forall>j\<in>set [exJob ''1'' ''u'']. jobId j = jobId (exJob ''1'' ''u'') \<and> jobUrl j = jobUrl (exJob ''1'' ''u'')"
    by simp
  have r1: "deduplicateJobs [exJob ''1'' ''u'', exJob ''1'' ''u''] = [exJob ''1'' ''u'']"
    using dedup_keeps_first_of_each_key[of "[exJob ''1'' ''u'']" "exJob ''1'' ''u''"] h by blast
  have e: "deduplicateJobs [exJob ''1'' ''u'', exJob ''2'' ''v'', exJob ''1'' ''u''] =
     [exJob ''1'' ''u'', exJob ''2'' ''v'']"
    by (simp add: deduplicateJobs_def dedupKey_def exJob_def shown_def)
  then have m: "exJob ''2'' ''v'' \<in> set (deduplicateJobs [exJob ''1'' ''u'', exJob ''2'' ''v'', exJob ''1'' ''u''])"
    by simp
  have r2: "\<exists>pre post. [exJob ''1'' ''u'', exJob ''2'' ''v'', exJob ''1'' ''u''] = pre @ exJob ''2'' ''v'' # post \<and>
      dedupKey (exJob ''2'' ''v'') \<notin> dedupKey ` set pre"
    using dedup_keeps_first_of_each_key[of "[exJob ''1'' ''u'', exJob ''2'' ''v'', exJob ''1'' ''u'']" "exJob ''1'' ''u''"] m
    by blast
  show ?thesis using r1 e m r2 by simp
qed

text \<open>
  Claim C4 at the failing input. The session holds three result records: one with id
  \<open>a_b\<close> and URL \<open>c\<close>, then two with id \<open>a\<close> and URL \<open>b_c\<close>. All three have the key
  \<open>a_b_c\<close>, so what is optimized, and what a save then stores, holds the first record
  only: of the two records with the same id and URL none is persisted.
\<close>

theorem dedup_key_collision:
  "map jobId (jobs_s exColliding) = [JsString ''a_b'', JsString ''a'', JsString ''a''] \<and>
   map jobUrl (jobs_s exColliding) = [JsString ''c'', JsString ''b_c'', JsString ''b_c''] \<and>
   map dedupKey (map (cleanJobData toISO) (jobs_s exColliding)) = [''a_b_c'', ''a_b_c'', ''a_b_c''] \<and>
   jobs_s (optimizeDataForStorage toISO exColliding) = [exJob ''a_b'' ''c''] \<and>
   sessions_st (snd (saveScrapingSession toISO getDataSize now 10 100 exColliding (emptyStore 0))) ''x'' =
     Some (exColliding\<lparr>jobs_s := [exJob ''a_b'' ''c'']\<rparr>)"
proof -
  have c: "cleanJobData toISO (exJob i u) = exJob i u" if "i \<noteq> []" "u \<noteq> []" for i u
    using that
    by (simp add: cleanJobData_def exJob_def orNA_def standardizeField_def trimField_def
          trim_def isSpace_def Let_def)
  have j: "jobs_s exColliding = [exJob ''a_b'' ''c'', exJob ''a'' ''b_c'', exJob ''a'' ''b_c'']"
    by (simp add: exColliding_def)
  have k: "dedupKey (exJob i u) = i @ ''_'' @ u" for i u
    by (simp add: dedupKey_def exJob_def shown_def)
  have n: "compressJob (exJob i u) = exJob i u" for i u
    by (simp add: compressJob_def exJob_def compressionThreshold_def)
  have o: "jobs_s (optimizeDataForStorage toISO exColliding) = [exJob ''a_b'' ''c'']"
    by (simp add: optimizeDataForStorage_def j c deduplicateJobs_def k n)
  then have o': "optimizeDataForStorage toISO exColliding = exColliding\<lparr>jobs_s := [exJob ''a_b'' ''c'']\<rparr>"
    by (simp add: optimizeDataForStorage_def)
  have s: "sessions_st (snd (saveScrapingSession toISO getDataSize now 10 100 exColliding (emptyStore 0))) ''x'' =
     Some (optimizeDataForStorage toISO exColliding)"
    by (simp add: saveScrapingSession_def saveScrapingSessionWith_def Let_def checkStorageQuota_def
          updateScrapingIndexWith_def upsert_def maxIndexEntries_def emptyStore_def
          updateStorageStats_def calculateStorageStats_def exColliding_def)
  have f1: "map jobId (jobs_s exColliding) = [JsString ''a_b'', JsString ''a'', JsString ''a'']"
    and f2: "map jobUrl (jobs_s exColliding) = [JsString ''c'', JsString ''b_c'', JsString ''b_c'']"
    by (simp_all add: j exJob_def)
  have f3: "map dedupKey (map (cleanJobData toISO) (jobs_s exColliding)) =
      [''a_b_c'', ''a_b_c'', ''a_b_c'']"
    by (simp add: j c k)
  have f5: "sessions_st (snd (saveScrapingSession toISO getDataSize now 10 100 exColliding (emptyStore 0))) ''x'' =
     Some (exColliding\<lparr>jobs_s := [exJob ''a_b'' ''c'']\<rparr>)"
    unfolding s o' ..
  show ?thesis by (intro conjI) (fact f1 f2 f3 o f5)+
qed

subsection \<open>Export formats\<close>

lemma exportData_unsupported:
  "format \<noteq> ''json'' \<Longrightarrow> format \<noteq> ''csv'' \<Longrightarrow> exportData now format detailed = None"
  by (simp add: exportData_def)

lemma exportData_sm_unsupported:
  "format \<noteq> ''json'' \<Longrightarrow> format \<noteq> ''csv'' \<Longrightarrow>
   \<exists>msg. exportData_sm now (Some format) includeDetails sessions = Inl msg"
  by (simp add: exportData_sm_def)

text \<open>
  Claim C9 at the failing input. Asked through the \<^verbatim>\<open>EXPORT_DATA\<close> message for the
  format \<open>xlsx\<close> or \<open>pdf\<close>, the manager starts no download and answers success. The
  storage manager's own export, asked for the same formats, ends with the error.
\<close>

theorem export_unsupported_answers_success:
  "handleMessage_EXPORT_DATA now ''xlsx'' detailed = (SuccessResp, None) \<and>
   handleMessage_EXPORT_DATA now ''pdf'' detailed = (SuccessResp, None) \<and>
   exportData_sm now (Some ''xlsx'') includeDetails sessions =
     Inl ''XLSX export not implemented yet'' \<and>
   exportData_sm now (Some ''pdf'') includeDetails sessions = Inl ''Unsupported format: pdf''"
  by (simp add: handleMessage_EXPORT_DATA_def exportData_def exportData_sm_def)

end
